theory Spec2Isabelle
  imports Complex_Main "HOL-Library.List_Lexorder" "HOL-Library.Char_ord" "HOL-Library.AList"
    "HOL-Library.Log_Nat"
begin

section \<open>Data model (types.ts)\<close>

text \<open>
  JavaScript numbers are modelled as \<^typ>\<open>real\<close> where the code computes with fractions
  (score, cash, bonus, positions, velocities) and as \<^typ>\<open>nat\<close> or \<^typ>\<open>int\<close> where it only
  counts (artifact level, bonus level, ante, deck counts). The rounding of IEEE doubles is
  modelled where it decides a result: in the score that \<open>handleCoinCollected\<close> credits,
  every product and sum is rounded with \<open>fl\<close> below. Elsewhere the arithmetic is that of
  the reals. A division whose divisor is a run-time quantity is written with \<open>js_div\<close>
  below, so that a zero divisor (which JavaScript answers with \<open>NaN\<close> or an infinity,
  never with an exception) is a visible value of the model.
\<close>

subsection \<open>IEEE doubles\<close>

text \<open>
  \<open>fl x\<close> is the double nearest to \<open>x\<close>, ties going to the even significand: with \<open>e\<close> the
  binary exponent of \<open>x\<close>, the doubles around \<open>x\<close> are the multiples of \<open>2 ^ (e - 52)\<close>
  (of \<open>2 ^ -1074\<close> in the subnormal range). \<open>binade\<close> finds \<open>e\<close> from the number of
  bits of \<open>x * 2 ^ 1074\<close>. Overflow to an infinity (beyond about \<open>1.8 * 10 ^ 308\<close>) is
  not modelled. A decimal literal such as \<open>0.1\<close> denotes \<open>fl (1 / 10)\<close>; \<open>1.5\<close> is a
  double as it stands. \<open>Math.pow\<close> is taken to return the double nearest to the power.
\<close>

definition round_even :: "real \<Rightarrow> int" where
  "round_even y =
     (let f = \<lfloor>y\<rfloor>
      in if y - of_int f < 1 / 2 then f
         else if y - of_int f > 1 / 2 then f + 1
         else if even f then f else f + 1)"

definition binade :: "real \<Rightarrow> int" where
  "binade x = int (floorlog 2 (nat \<lfloor>x * 2 ^ 1074\<rfloor>)) - 1075"

definition fl :: "real \<Rightarrow> real" where
  "fl x =
     (if x = 0 then 0
      else
        let m = \<bar>x\<bar>;
            u = 2 powi (max (binade m - 52) (- 1074))
        in sgn x * u * of_int (round_even (m / u)))"

definition js_pow :: "real \<Rightarrow> nat \<Rightarrow> real" where
  "js_pow b n = fl (b ^ n)"

datatype GamePhase = MENU | PLAYING | SHOP | GAME_OVER

datatype CoinType =
    STANDARD | SPLITTER | HEAVY | GOLD | BOMB
  | SEED | WATER | MAGMA | ICE | KEY | CHEST
  | TREE | OBSIDIAN | DIAMOND

text \<open>The string value of each enum member, as used in template strings.\<close>

fun coinTypeName :: "CoinType \<Rightarrow> string" where
  "coinTypeName STANDARD = ''STANDARD''"
| "coinTypeName SPLITTER = ''SPLITTER''"
| "coinTypeName HEAVY = ''HEAVY''"
| "coinTypeName GOLD = ''GOLD''"
| "coinTypeName BOMB = ''BOMB''"
| "coinTypeName SEED = ''SEED''"
| "coinTypeName WATER = ''WATER''"
| "coinTypeName MAGMA = ''MAGMA''"
| "coinTypeName ICE = ''ICE''"
| "coinTypeName KEY = ''KEY''"
| "coinTypeName CHEST = ''CHEST''"
| "coinTypeName TREE = ''TREE''"
| "coinTypeName OBSIDIAN = ''OBSIDIAN''"
| "coinTypeName DIAMOND = ''DIAMOND''"

type_synonym vec3 = "real \<times> real \<times> real"

text \<open>
  \<open>CoinData\<close>. The optional fields \<open>hasSplit?\<close> and \<open>isActive?\<close> are \<open>None\<close> when the
  object literal leaves them out; \<open>!coin.hasSplit\<close> is true for \<open>None\<close> and \<open>Some False\<close>.
\<close>

record CoinData =
  coin_id :: string
  coin_type :: CoinType
  position :: vec3
  rotation :: vec3
  hasSplit :: "bool option"
  isActive :: "bool option"

record DeckItem =
  di_type :: CoinType
  di_count :: int
  di_name :: string
  di_value :: real
  di_score :: real
  di_cost :: real
  di_color :: string
  di_description :: string

record Artifact =
  art_id :: string
  art_name :: string
  art_description :: string
  art_cost :: real
  art_active :: bool
  level :: nat

record GameState =
  phase :: GamePhase
  score :: real
  targetScore :: real
  cash :: real
  ante :: nat
  deck :: "CoinType \<Rightarrow> int"
  artifacts :: "Artifact list"
  bonus :: real
  bonusLevel :: nat

section \<open>Configuration tables (constants.ts)\<close>

fun COIN_CONFIG :: "CoinType \<Rightarrow> DeckItem" where
  "COIN_CONFIG STANDARD = \<lparr>di_type = STANDARD, di_count = 0, di_name = ''Standard Chip'',
     di_value = 10, di_score = 100, di_cost = 5, di_color = ''#cd7f32'',
     di_description = ''Basic reliable currency.''\<rparr>"
| "COIN_CONFIG SPLITTER = \<lparr>di_type = SPLITTER, di_count = 0, di_name = ''Splitter Cell'',
     di_value = 15, di_score = 150, di_cost = 50, di_color = ''#22c55e'',
     di_description = ''High bounciness. Unstable.''\<rparr>"
| "COIN_CONFIG HEAVY = \<lparr>di_type = HEAVY, di_count = 0, di_name = ''Heavy Anchor'',
     di_value = 20, di_score = 300, di_cost = 80, di_color = ''#475569'',
     di_description = ''Massive weight. Pushes piles.''\<rparr>"
| "COIN_CONFIG GOLD = \<lparr>di_type = GOLD, di_count = 0, di_name = ''Midas Touch'',
     di_value = 100, di_score = 1000, di_cost = 200, di_color = ''#facc15'',
     di_description = ''High value target.''\<rparr>"
| "COIN_CONFIG BOMB = \<lparr>di_type = BOMB, di_count = 0, di_name = ''Cluster Bomb'',
     di_value = 5, di_score = 50, di_cost = 150, di_color = ''#ef4444'',
     di_description = ''Explodes on impact.''\<rparr>"
| "COIN_CONFIG SEED = \<lparr>di_type = SEED, di_count = 0, di_name = ''Nanoseed'',
     di_value = 5, di_score = 50, di_cost = 40, di_color = ''#84cc16'',
     di_description = ''Combine with Hydro-Vial.''\<rparr>"
| "COIN_CONFIG WATER = \<lparr>di_type = WATER, di_count = 0, di_name = ''Hydro-Vial'',
     di_value = 5, di_score = 50, di_cost = 40, di_color = ''#3b82f6'',
     di_description = ''Combine with Nanoseed.''\<rparr>"
| "COIN_CONFIG MAGMA = \<lparr>di_type = MAGMA, di_count = 0, di_name = ''Pyro-Core'',
     di_value = 10, di_score = 80, di_cost = 60, di_color = ''#f97316'',
     di_description = ''Hot! Combine with Cryo-Cell.''\<rparr>"
| "COIN_CONFIG ICE = \<lparr>di_type = ICE, di_count = 0, di_name = ''Cryo-Cell'',
     di_value = 10, di_score = 80, di_cost = 60, di_color = ''#a5f3fc'',
     di_description = ''Cold! Combine with Pyro-Core.''\<rparr>"
| "COIN_CONFIG KEY = \<lparr>di_type = KEY, di_count = 0, di_name = ''Access Key'',
     di_value = 50, di_score = 200, di_cost = 120, di_color = ''#e2e8f0'',
     di_description = ''Unlocks Cached Chests.''\<rparr>"
| "COIN_CONFIG CHEST = \<lparr>di_type = CHEST, di_count = 0, di_name = ''Locked Cache'',
     di_value = 50, di_score = 200, di_cost = 120, di_color = ''#78350f'',
     di_description = ''Needs an Access Key.''\<rparr>"
| "COIN_CONFIG TREE = \<lparr>di_type = TREE, di_count = 0, di_name = ''Yggdrasil Node'',
     di_value = 500, di_score = 5000, di_cost = 9999, di_color = ''#14532d'',
     di_description = ''Grown from Seed + Water.''\<rparr>"
| "COIN_CONFIG OBSIDIAN = \<lparr>di_type = OBSIDIAN, di_count = 0, di_name = ''Obsidian Slab'',
     di_value = 300, di_score = 3000, di_cost = 9999, di_color = ''#1e1b4b'',
     di_description = ''Forged from Fire + Ice. Heavy.''\<rparr>"
| "COIN_CONFIG DIAMOND = \<lparr>di_type = DIAMOND, di_count = 0, di_name = ''Quantum Diamond'',
     di_value = 1000, di_score = 10000, di_cost = 9999, di_color = ''#ffffff'',
     di_description = ''Unlocked from Cache.''\<rparr>"

fun INITIAL_DECK :: "CoinType \<Rightarrow> int" where
  "INITIAL_DECK STANDARD = 30"
| "INITIAL_DECK SPLITTER = 2"
| "INITIAL_DECK HEAVY = 1"
| "INITIAL_DECK GOLD = 0"
| "INITIAL_DECK BOMB = 0"
| "INITIAL_DECK SEED = 3"
| "INITIAL_DECK WATER = 3"
| "INITIAL_DECK MAGMA = 0"
| "INITIAL_DECK ICE = 0"
| "INITIAL_DECK KEY = 0"
| "INITIAL_DECK CHEST = 0"
| "INITIAL_DECK TREE = 0"
| "INITIAL_DECK OBSIDIAN = 0"
| "INITIAL_DECK DIAMOND = 0"

definition SHOP_ARTIFACTS :: "Artifact list" where
  "SHOP_ARTIFACTS =
    [\<lparr>art_id = ''magnet'', art_name = ''Flux Magnet'',
      art_description = ''Coins settle faster per level.'', art_cost = 300,
      art_active = False, level = 0\<rparr>,
     \<lparr>art_id = ''extender'', art_name = ''Bed Extender'',
      art_description = ''Widens playing area.'', art_cost = 500,
      art_active = False, level = 0\<rparr>,
     \<lparr>art_id = ''mult'', art_name = ''Score Multiplier'',
      art_description = ''Score x1.5 per level.'', art_cost = 800,
      art_active = False, level = 0\<rparr>]"

text \<open>
  \<open>MACHINE_DIMENSIONS\<close> is imported from constants.ts by the application, but the object
  is not among the sources; the functions that read it take it as a parameter.
\<close>

record MachineDimensions =
  baseDropWidth :: real
  widthPerLevel :: real
  baseWidth :: real
  bedLength :: real

section \<open>Collision event reducer (the Coins component)\<close>

text \<open>
  What a collision callback sees of the physics engine: the other body's scene object
  (\<open>payload.other.rigidBodyObject\<close>) with its \<open>userData\<close> and \<open>name\<close>, the two rigid
  bodies with their handles, velocities and translations, and the first solver contact
  point of the manifold.
\<close>

record UserData =
  ud_coinId :: "string option"
  ud_coinType :: "CoinType option"

record BodyObject =
  userData :: "UserData option"
  body_name :: string

record RigidBody =
  handle :: nat
  linvel :: vec3
  translation :: vec3

record Payload =
  other_rigidBodyObject :: "BodyObject option"
  other_rigidBody :: "RigidBody option"
  target_rigidBody :: "RigidBody option"
  solverContactPoint0 :: "vec3 option"

text \<open>
  The props \<open>CoinItem\<close> gives the rigid body of a coin:
  \<open>name = coin-<type>-<id>\<close> and \<open>userData = {coinId, coinType}\<close>.
\<close>

definition coinBodyObject :: "CoinData \<Rightarrow> BodyObject" where
  "coinBodyObject coin =
     \<lparr>userData = Some \<lparr>ud_coinId = Some (coin_id coin), ud_coinType = Some (coin_type coin)\<rparr>,
      body_name = ''coin-'' @ coinTypeName (coin_type coin) @ ''-'' @ coin_id coin\<rparr>"

fun interactionResults :: "CoinType \<Rightarrow> CoinType \<Rightarrow> CoinType option" where
  "interactionResults SEED WATER = Some TREE"
| "interactionResults WATER SEED = Some TREE"
| "interactionResults MAGMA ICE = Some OBSIDIAN"
| "interactionResults ICE MAGMA = Some OBSIDIAN"
| "interactionResults KEY CHEST = Some DIAMOND"
| "interactionResults CHEST KEY = Some DIAMOND"
| "interactionResults _ _ = None"

definition interactionCoinTypes :: "CoinType set" where
  "interactionCoinTypes = {SEED, WATER, MAGMA, ICE, KEY, CHEST}"

definition activeCollisionCoinTypes :: "CoinType set" where
  "activeCollisionCoinTypes = interactionCoinTypes \<union> {SPLITTER, GOLD, BOMB}"

text \<open>
  \<open>pendingEventsRef\<close>: two JavaScript Maps and two Sets, kept in insertion order
  (association lists and duplicate-free lists), together with the log of what the
  reducer has asked of the physics world (\<open>applyImpulse\<close>).
\<close>

datatype impulse = Impulse vec3 | NonFinite

record pending =
  interactions :: "(string \<times> (string \<times> string \<times> CoinType)) list"
  splits :: "(string \<times> (string \<times> vec3)) list"
  transmutations :: "string list"
  explosions :: "string list"
  applied :: "(nat \<times> impulse) list"

text \<open>\<open>Set.prototype.add\<close>: a new element goes to the end, a present one changes nothing.\<close>

definition set_add :: "'a \<Rightarrow> 'a list \<Rightarrow> 'a list" where
  "set_add x xs = (if x \<in> set xs then xs else xs @ [x])"

text \<open>
  \<open>Map.prototype.set\<close> is \<^const>\<open>AList.update\<close>: a present key keeps its place and
  takes the new value, a new key goes to the end.
\<close>

definition queueInteraction :: "string \<Rightarrow> string \<Rightarrow> CoinType \<Rightarrow> pending \<Rightarrow> pending" where
  "queueInteraction id1 id2 result st =
     (let key = id1 @ '':'' @ id2 @ '':'' @ coinTypeName result
      in st\<lparr>interactions := AList.update key (id1, id2, result) (interactions st)\<rparr>)"

definition queueSplit :: "string \<Rightarrow> vec3 \<Rightarrow> pending \<Rightarrow> pending" where
  "queueSplit i pos st = st\<lparr>splits := AList.update i (i, pos) (splits st)\<rparr>"

definition queueTransmute :: "string \<Rightarrow> pending \<Rightarrow> pending" where
  "queueTransmute targetId st = st\<lparr>transmutations := set_add targetId (transmutations st)\<rparr>"

definition queueExplosion :: "string \<Rightarrow> pending \<Rightarrow> pending" where
  "queueExplosion i st = st\<lparr>explosions := set_add i (explosions st)\<rparr>"

text \<open>
  JavaScript division by a run-time divisor: \<open>None\<close> stands for the \<open>NaN\<close> or infinity
  that a zero divisor produces.
\<close>

definition js_div :: "real \<Rightarrow> real \<Rightarrow> real option" where
  "js_div a b = (if b = 0 then None else Some (a / b))"

definition explosionRadius :: real where
  "explosionRadius = 8"

definition explosionForce :: real where
  "explosionForce = 8"

text \<open>
  The body of the \<open>world.forEachRigidBody\<close> callback in \<open>triggerExplosion\<close>, for one
  \<open>otherBody\<close>: \<open>None\<close> when the callback returns without an impulse (the detonating body
  itself, or a body outside the radius), otherwise the impulse handed to
  \<open>otherBody.applyImpulse\<close>.
\<close>

definition explosionImpulse :: "RigidBody \<Rightarrow> RigidBody \<Rightarrow> impulse option" where
  "explosionImpulse body otherBody =
     (if handle otherBody = handle body then None
      else
        let (px, py, pz) = translation body;
            (ox, oy, oz) = translation otherBody;
            dist = sqrt ((px - ox)\<^sup>2 + (py - oy)\<^sup>2 + (pz - oz)\<^sup>2)
        in if dist < explosionRadius then
             (case (js_div (ox - px) dist, js_div (oy - py) dist, js_div (oz - pz) dist) of
                (Some dx, Some dy, Some dz) \<Rightarrow>
                  let dir = (dx, dy + 0.5, dz);
                      force = (1 - dist / explosionRadius) * explosionForce
                  in (case dir of (x, y, z) \<Rightarrow> Some (Impulse (x * force, y * force, z * force)))
              | _ \<Rightarrow> Some NonFinite)
           else None)"

definition triggerExplosion ::
  "RigidBody list \<Rightarrow> string \<Rightarrow> RigidBody option \<Rightarrow> pending \<Rightarrow> pending" where
  "triggerExplosion world i body st =
     (case body of
        None \<Rightarrow> st
      | Some b \<Rightarrow>
          queueExplosion i
            (st\<lparr>applied := applied st @
                  concat (map (\<lambda>otherBody.
                     case explosionImpulse b otherBody of
                       None \<Rightarrow> []
                     | Some imp \<Rightarrow> [(handle otherBody, imp)]) world)\<rparr>))"

text \<open>
  \<open>handleCollision(payload, coin)\<close>. A string is truthy when it is not empty; an enum
  member is always truthy. \<open>coin.id < otherCoinId\<close> compares strings lexicographically.
\<close>

definition handleCollision ::
  "RigidBody list \<Rightarrow> Payload \<Rightarrow> CoinData \<Rightarrow> pending \<Rightarrow> pending" where
  "handleCollision world payload coin st =
     (if coin_type coin \<notin> activeCollisionCoinTypes then st
      else case other_rigidBodyObject payload of
        None \<Rightarrow> st
      | Some otherBody \<Rightarrow>
          let shouldCheckOtherCoin =
                (coin_type coin \<in> interactionCoinTypes \<or> coin_type coin = GOLD);
              otherUserData = (if shouldCheckOtherCoin then userData otherBody else None);
              otherCoinId = (case otherUserData of None \<Rightarrow> None | Some u \<Rightarrow> ud_coinId u);
              otherCoinType = (case otherUserData of None \<Rightarrow> None | Some u \<Rightarrow> ud_coinType u);
              truthyId = (case otherCoinId of None \<Rightarrow> False | Some oid \<Rightarrow> oid \<noteq> []);
              st1 =
                (case (otherCoinId, otherCoinType) of
                   (Some oid, Some otype) \<Rightarrow>
                     if truthyId \<and> coin_type coin \<in> interactionCoinTypes then
                       (case interactionResults (coin_type coin) otype of
                          Some result \<Rightarrow>
                            if coin_id coin < oid
                            then queueInteraction (coin_id coin) oid result st
                            else st
                        | None \<Rightarrow> st)
                     else st
                 | _ \<Rightarrow> st);
              st2 =
                (if coin_type coin = SPLITTER \<and> hasSplit coin \<noteq> Some True then
                   (if body_name otherBody = ''pusher'' then
                      (case solverContactPoint0 payload of
                         Some (cx, cy, cz) \<Rightarrow> queueSplit (coin_id coin) (cx, cy + 1, cz) st1
                       | None \<Rightarrow> st1)
                    else st1)
                 else st1);
              st3 =
                (if coin_type coin = GOLD then
                   (case otherCoinId of
                      Some oid \<Rightarrow>
                        if otherCoinType = Some STANDARD \<and> truthyId
                        then queueTransmute oid st2 else st2
                    | None \<Rightarrow> st2)
                 else st2);
              st4 =
                (if coin_type coin = BOMB then
                   (case target_rigidBody payload of
                      Some selfBody \<Rightarrow>
                        let (v1x, v1y, v1z) = linvel selfBody;
                            (v2x, v2y, v2z) =
                              (case other_rigidBody payload of
                                 Some otherRigidBody \<Rightarrow> linvel otherRigidBody
                               | None \<Rightarrow> (0, 0, 0));
                            dx = v1x - v2x;
                            dy = v1y - v2y;
                            dz = v1z - v2z;
                            speedSq = dx * dx + dy * dy + dz * dz
                        in if speedSq > 25
                           then triggerExplosion world (coin_id coin) (Some selfBody) st3
                           else st3
                    | None \<Rightarrow> st3)
                 else st3)
          in st4)"

section \<open>Application state and handlers (the App component)\<close>

text \<open>
  The registry \<open>coinState\<close>: \<open>coinMap\<close> is only read and written by key, so a partial
  function serves for the JavaScript Map; the order of the coins is \<open>coinOrder\<close>.
\<close>

record CoinState =
  coinMap :: "string \<rightharpoonup> CoinData"
  coinOrder :: "string list"

text \<open>
  The component's state. \<open>gameState\<close> and \<open>coinState\<close> are the React states; a functional
  update \<open>setX(prev => ...)\<close> is applied to the current value of the field. \<open>gameStateRef\<close>
  is the snapshot the handlers read without \<open>prev\<close>: the closure variable \<open>gameState\<close> of
  the last render, which the effect after every render also stores in
  \<open>gameStateRef.current\<close>. It changes only in \<open>render\<close> below. \<open>jackpotTimers\<close> holds the
  arguments of the pending \<open>setTimeout(() => triggerJackpot(nextBonusLevel), 0)\<close> calls.
  \<open>timeScale\<close> is only handed on to the scene and is left out.
\<close>

record App =
  gameState :: GameState
  gameStateRef :: GameState
  coinState :: CoinState
  isTabActive :: bool
  physicsTime :: real
  lastScoreTime :: real
  lastBonusDecayTime :: real
  jackpotTimers :: "nat list"

definition INITIAL_STATE :: GameState where
  "INITIAL_STATE =
     \<lparr>phase = MENU, score = 0, targetScore = 2000, cash = 100, ante = 1,
      deck = INITIAL_DECK, artifacts = [], bonus = 0, bonusLevel = 1\<rparr>"

definition initialApp :: App where
  "initialApp =
     \<lparr>gameState = INITIAL_STATE, gameStateRef = INITIAL_STATE,
      coinState = \<lparr>coinMap = Map.empty, coinOrder = []\<rparr>,
      isTabActive = True, physicsTime = 0, lastScoreTime = 0, lastBonusDecayTime = 0,
      jackpotTimers = []\<rparr>"

text \<open>The effect \<open>gameStateRef.current = gameState\<close> that follows a render.\<close>

definition render :: "App \<Rightarrow> App" where
  "render a = a\<lparr>gameStateRef := gameState a\<rparr>"

text \<open>
  The values a handler draws from \<open>Math.random()\<close>: \<open>rnd_id\<close> is the string
  \<open>Math.random().toString(36).substr(2, 9)\<close>, the others are the numbers drawn for the
  position and the rotation.
\<close>

record draw =
  rnd_id :: string
  rnd_x :: real
  rnd_y :: real
  rnd_z :: real
  rnd_rot :: real

text \<open>
  The idiom \<open>const x = state.artifacts.find(a => a.id === k); x ? x.level : 0\<close>.
\<close>

definition artifactLevel :: "string \<Rightarrow> GameState \<Rightarrow> nat" where
  "artifactLevel k st =
     (case find (\<lambda>a. art_id a = k) (artifacts st) of None \<Rightarrow> 0 | Some a \<Rightarrow> level a)"

text \<open>\<open>Array.prototype.findIndex\<close>, with \<open>None\<close> for \<open>-1\<close>.\<close>

fun findIndex :: "('a \<Rightarrow> bool) \<Rightarrow> 'a list \<Rightarrow> nat option" where
  "findIndex P [] = None"
| "findIndex P (x # xs) = (if P x then Some 0 else map_option Suc (findIndex P xs))"

text \<open>\<open>Math.round\<close> rounds halves up.\<close>

definition js_round :: "real \<Rightarrow> int" where
  "js_round x = \<lfloor>x + 1 / 2\<rfloor>"

text \<open>\<open>new Map([...m, ...coins.map(coin => [coin.id, coin])])\<close>: later entries win.\<close>

definition mapWith :: "(string \<rightharpoonup> CoinData) \<Rightarrow> CoinData list \<Rightarrow> (string \<rightharpoonup> CoinData)" where
  "mapWith m coins = foldl (\<lambda>acc coin. acc(coin_id coin \<mapsto> coin)) m coins"

definition handlePhysicsTick :: "real \<Rightarrow> App \<Rightarrow> App" where
  "handlePhysicsTick deltaSeconds a = a\<lparr>physicsTime := physicsTime a + deltaSeconds\<rparr>"

text \<open>
  One firing of the \<open>decayInterval\<close> callback. The interval exists while the rendered
  phase is PLAYING and the tab is active (see \<open>reachable\<close>).
\<close>

definition decayInterval :: "App \<Rightarrow> App" where
  "decayInterval a =
     (let now = physicsTime a;
          sinceScore = now - lastScoreTime a
      in if sinceScore \<le> 2 then a\<lparr>lastBonusDecayTime := now\<rparr>
         else
           let decayDelta = now - lastBonusDecayTime a
           in if decayDelta \<le> 0 then a
              else
                let decayRatePerSecond = 20;
                    prev = gameState a
                in a\<lparr>lastBonusDecayTime := now,
                     gameState :=
                       (if bonus prev \<le> 0 then prev
                        else
                          let nextBonus = max 0 (bonus prev - decayRatePerSecond * decayDelta)
                          in prev\<lparr>bonus := nextBonus,
                                  bonusLevel := (if nextBonus = 0 then 1 else bonusLevel prev)\<rparr>)\<rparr>)"

definition startGame :: "(nat \<Rightarrow> draw) \<Rightarrow> App \<Rightarrow> App" where
  "startGame rnd a =
     (let initialCoins =
            map (\<lambda>i. \<lparr>coin_id = ''start-'' @ rnd_id (rnd i), coin_type = STANDARD,
                       position = ((rnd_x (rnd i) - 0.5) * 8, 2 + rnd_y (rnd i) * 5,
                                   rnd_z (rnd i) * 7),
                       rotation = (0, rnd_rot (rnd i) * pi * 2, 0),
                       hasSplit = None, isActive = None\<rparr>) [0..<60]
      in a\<lparr>gameState := INITIAL_STATE\<lparr>phase := PLAYING\<rparr>,
           physicsTime := 0, lastScoreTime := 0, lastBonusDecayTime := 0,
           coinState := \<lparr>coinMap = mapWith Map.empty initialCoins,
                          coinOrder = map coin_id initialCoins\<rparr>\<rparr>)"

definition spawnCoin :: "MachineDimensions \<Rightarrow> draw \<Rightarrow> CoinType \<Rightarrow> bool \<Rightarrow> App \<Rightarrow> App" where
  "spawnCoin md d ty isFree a =
     (let state = gameStateRef a
      in if \<not> isFree \<and> deck state ty \<le> 0 then a
         else
           let extenderLevel = artifactLevel ''extender'' state;
               dropWidth = baseDropWidth md + real extenderLevel * widthPerLevel md;
               xPos = (rnd_x d - 0.5) * dropWidth;
               zPos = rnd_z d * 3 - 1.5;
               yPos = 8 + rnd_y d * 2;
               newCoin = \<lparr>coin_id = (if isFree then ''bonus-'' else []) @ rnd_id d,
                          coin_type = ty, position = (xPos, yPos, zPos),
                          rotation = (0, rnd_rot d * pi * 2, 0),
                          hasSplit = None, isActive = None\<rparr>;
               prevC = coinState a;
               prevG = gameState a
           in a\<lparr>coinState := \<lparr>coinMap = (coinMap prevC)(coin_id newCoin \<mapsto> newCoin),
                                coinOrder = coinOrder prevC @ [coin_id newCoin]\<rparr>,
                gameState :=
                  prevG\<lparr>deck := (if isFree then deck prevG
                                   else (deck prevG)(ty := deck prevG ty - 1))\<rparr>\<rparr>)"

definition handleCoinDrop :: "MachineDimensions \<Rightarrow> draw \<Rightarrow> CoinType \<Rightarrow> App \<Rightarrow> App" where
  "handleCoinDrop md d ty a = spawnCoin md d ty False a"

text \<open>
  The number of coins of a jackpot burst. \<open>MACHINE_DIMENSIONS\<close> is taken to have a
  \<open>baseWidth\<close> and a \<open>bedLength\<close> other than 0, as the dimensions of a
  machine are; the quotient is then an ordinary division.
\<close>

definition jackpotCoins :: "MachineDimensions \<Rightarrow> GameState \<Rightarrow> nat \<Rightarrow> nat" where
  "jackpotCoins md state bl =
     (let bonusMult = 1 + 0.1 * (real bl - 1);
          extenderLevel = artifactLevel ''extender'' state;
          bedWidth = baseWidth md + real extenderLevel * widthPerLevel md;
          bedAreaScale = (bedWidth * bedLength md) / (baseWidth md * bedLength md);
          maxJackpotCoins = max 1 (js_round (12 * bedAreaScale))
      in nat (min maxJackpotCoins (max 1 (js_round (10 * bonusMult)))))"

definition triggerJackpot :: "MachineDimensions \<Rightarrow> (nat \<Rightarrow> draw) \<Rightarrow> nat \<Rightarrow> App \<Rightarrow> App" where
  "triggerJackpot md rnd bl a =
     (let state = gameStateRef a;
          extenderLevel = artifactLevel ''extender'' state;
          dropWidth = baseDropWidth md + real extenderLevel * widthPerLevel md;
          newCoins =
            map (\<lambda>i. \<lparr>coin_id = ''bonus-'' @ rnd_id (rnd i), coin_type = STANDARD,
                       position = ((rnd_x (rnd i) - 0.5) * dropWidth, 8 + rnd_y (rnd i) * 2,
                                   rnd_z (rnd i) * 3 - 1.5),
                       rotation = (0, rnd_rot (rnd i) * pi * 2, 0),
                       hasSplit = None, isActive = None\<rparr>) [0..<jackpotCoins md state bl];
          prev = coinState a
      in a\<lparr>coinState := \<lparr>coinMap = mapWith (coinMap prev) newCoins,
                           coinOrder = coinOrder prev @ map coin_id newCoins\<rparr>\<rparr>)"

definition handleSplit :: "string \<Rightarrow> vec3 \<Rightarrow> draw \<Rightarrow> App \<Rightarrow> App" where
  "handleSplit i pos d a =
     (let prev = coinState a
      in case coinMap prev i of
           None \<Rightarrow> a
         | Some original \<Rightarrow>
             if hasSplit original = Some True then a
             else
               let coinMap1 = (coinMap prev)(i \<mapsto> original\<lparr>hasSplit := Some True\<rparr>);
                   clone = (case pos of (x, y, z) \<Rightarrow>
                     \<lparr>coin_id = ''clone-'' @ rnd_id d, coin_type = SPLITTER,
                      position = (x, y + 1, z), rotation = (0, rnd_rot d * pi * 2, 0),
                      hasSplit = Some True, isActive = None\<rparr>)
               in a\<lparr>coinState := \<lparr>coinMap = coinMap1(coin_id clone \<mapsto> clone),
                                    coinOrder = coinOrder prev @ [coin_id clone]\<rparr>\<rparr>)"

definition handleExplode :: "string \<Rightarrow> App \<Rightarrow> App" where
  "handleExplode i a =
     (let prev = coinState a
      in if coinMap prev i = None then a
         else a\<lparr>coinState := \<lparr>coinMap = (coinMap prev)(i := None),
                              coinOrder = filter (\<lambda>coinId. coinId \<noteq> i) (coinOrder prev)\<rparr>\<rparr>)"

definition handleTransmute :: "string \<Rightarrow> App \<Rightarrow> App" where
  "handleTransmute targetId a =
     (let prev = coinState a
      in case coinMap prev targetId of
           None \<Rightarrow> a
         | Some target \<Rightarrow>
             if coin_type target = GOLD then a
             else a\<lparr>coinState :=
                      prev\<lparr>coinMap := (coinMap prev)(targetId \<mapsto> target\<lparr>coin_type := GOLD\<rparr>)\<rparr>\<rparr>)"

definition handleCoinInteraction :: "string \<Rightarrow> string \<Rightarrow> CoinType \<Rightarrow> draw \<Rightarrow> App \<Rightarrow> App" where
  "handleCoinInteraction id1 id2 resultType d a =
     (let prev = coinState a
      in case (coinMap prev id1, coinMap prev id2) of
           (Some coin1, Some coin2) \<Rightarrow>
             let coinMap1 = (coinMap prev)(id1 := None, id2 := None);
                 newPos = (case (position coin1, position coin2) of
                   ((x1, y1, z1), (x2, y2, z2)) \<Rightarrow> ((x1 + x2) / 2, (y1 + y2) / 2, (z1 + z2) / 2));
                 newCoin = \<lparr>coin_id = ''merged-'' @ rnd_id d, coin_type = resultType,
                            position = newPos, rotation = (0, 0, 0),
                            hasSplit = None, isActive = None\<rparr>
             in a\<lparr>coinState :=
                    \<lparr>coinMap = coinMap1(coin_id newCoin \<mapsto> newCoin),
                     coinOrder = filter (\<lambda>coinId. coinId \<noteq> id1 \<and> coinId \<noteq> id2) (coinOrder prev)
                                 @ [coin_id newCoin]\<rparr>\<rparr>
         | _ \<Rightarrow> a)"

definition handleCoinCollected :: "string \<Rightarrow> CoinType \<Rightarrow> App \<Rightarrow> App" where
  "handleCoinCollected i ty a =
     (let prevC = coinState a;
          coinState' =
            (if coinMap prevC i = None then prevC
             else \<lparr>coinMap = (coinMap prevC)(i := None),
                   coinOrder = filter (\<lambda>coinId. coinId \<noteq> i) (coinOrder prevC)\<rparr>);
          config = COIN_CONFIG ty;
          state = gameStateRef a;
          lvl = artifactLevel ''mult'' state;
          scoreMult = js_pow 1.5 lvl;
          bonusMult = fl (1 + fl (fl (1 / 10) * (real (bonusLevel state) - 1)));
          full = (bonus state + 4 \<ge> 100);
          newBonus = (if full then 0 else bonus state + 4);
          nextBonusLevel = (if full then bonusLevel state + 1 else bonusLevel state);
          prev = gameState a
      in a\<lparr>coinState := coinState',
           lastScoreTime := physicsTime a,
           jackpotTimers := (if full then jackpotTimers a @ [nextBonusLevel]
                             else jackpotTimers a),
           gameState :=
             prev\<lparr>score := score prev
                            + of_int \<lfloor>fl (fl (di_score config * scoreMult) * bonusMult)\<rfloor>,
                   cash := cash prev + di_value config,
                   bonus := newBonus,
                   bonusLevel := nextBonusLevel\<rparr>\<rparr>)"

definition handleRoundEnd :: "App \<Rightarrow> App" where
  "handleRoundEnd a =
     (let prev = gameState a
      in if score (gameStateRef a) \<ge> targetScore (gameStateRef a)
         then a\<lparr>gameState := prev\<lparr>phase := SHOP, score := 0, bonus := 0, bonusLevel := 1\<rparr>\<rparr>
         else a\<lparr>gameState := prev\<lparr>phase := GAME_OVER\<rparr>\<rparr>)"

definition nextRound :: "App \<Rightarrow> App" where
  "nextRound a =
     (let prev = gameState a
      in a\<lparr>gameState := prev\<lparr>phase := PLAYING, ante := ante prev + 1,
                               targetScore := of_int \<lfloor>targetScore prev * 1.5\<rfloor>\<rparr>,
           lastScoreTime := physicsTime a,
           lastBonusDecayTime := physicsTime a\<rparr>)"

text \<open>
  \<open>buyItem(itemType, id, cost)\<close>: the pair of \<open>itemType\<close> and \<open>id\<close> is one value here, a
  coin type for \<open>'coin'\<close> (the source casts \<open>id as CoinType\<close>) and the id string for
  \<open>'artifact'\<close>.
\<close>

datatype ShopItem = CoinItem CoinType | ArtifactItem string

definition buyItem :: "ShopItem \<Rightarrow> real \<Rightarrow> App \<Rightarrow> App" where
  "buyItem item cost a =
     (if cash (gameStateRef a) \<ge> cost then
        let prev = gameState a;
            newState = prev\<lparr>cash := cash prev - cost\<rparr>
        in a\<lparr>gameState :=
               (case item of
                  CoinItem ty \<Rightarrow> newState\<lparr>deck := (deck newState)(ty := deck newState ty + 5)\<rparr>
                | ArtifactItem i \<Rightarrow>
                    (case findIndex (\<lambda>x. art_id x = i) (artifacts prev) of
                       Some existingIndex \<Rightarrow>
                         let updatedArtifacts = artifacts prev
                         in newState\<lparr>artifacts :=
                              updatedArtifacts[existingIndex :=
                                (updatedArtifacts ! existingIndex)
                                  \<lparr>level := level (updatedArtifacts ! existingIndex) + 1\<rparr>]\<rparr>
                     | None \<Rightarrow>
                         (case find (\<lambda>x. art_id x = i) SHOP_ARTIFACTS of
                            Some baseArtifact \<Rightarrow>
                              newState\<lparr>artifacts :=
                                artifacts prev @ [baseArtifact\<lparr>art_active := True, level := 1\<rparr>]\<rparr>
                          | None \<Rightarrow> newState)))\<rparr>
      else a)"

text \<open>The GAME_OVER button: \<open>setGameState(INITIAL_STATE); setCoinState(empty)\<close>.\<close>

definition reboot :: "App \<Rightarrow> App" where
  "reboot a = a\<lparr>gameState := INITIAL_STATE, coinState := \<lparr>coinMap = Map.empty, coinOrder = []\<rparr>\<rparr>"

section \<open>The shop (the Shop component)\<close>

text \<open>
  \<open>ShopArtifactItem\<close>: the price shown for an artifact and the click on its button,
  which is disabled when the price exceeds the cash.
\<close>

definition currentCost :: "Artifact \<Rightarrow> GameState \<Rightarrow> real" where
  "currentCost baseArtifact g =
     (let currentLevel = artifactLevel (art_id baseArtifact) g
      in of_int \<lfloor>art_cost baseArtifact * 1.5 ^ currentLevel\<rfloor>)"

definition buyArtifactClick :: "Artifact \<Rightarrow> App \<Rightarrow> App" where
  "buyArtifactClick baseArtifact a =
     (let cost = currentCost baseArtifact (gameStateRef a);
          canAfford = (cash (gameStateRef a) \<ge> cost)
      in if canAfford then buyItem (ArtifactItem (art_id baseArtifact)) cost a else a)"

section \<open>Runs of the application\<close>

text \<open>
  The states the application can be in: every handler may fire with any arguments and
  any random draws, the screens gate the buttons by the rendered phase, and a render may
  happen between any two events.
\<close>

inductive reachable :: "MachineDimensions \<Rightarrow> App \<Rightarrow> bool" for md :: MachineDimensions where
  r_init: "reachable md initialApp"
| r_render: "reachable md a \<Longrightarrow> reachable md (render a)"
| r_tab: "reachable md a \<Longrightarrow> reachable md (a\<lparr>isTabActive := b\<rparr>)"
| r_tick: "reachable md a \<Longrightarrow> reachable md (handlePhysicsTick dt a)"
| r_decay: "reachable md a \<Longrightarrow> phase (gameStateRef a) = PLAYING \<Longrightarrow> isTabActive a
            \<Longrightarrow> reachable md (decayInterval a)"
| r_start: "reachable md a \<Longrightarrow> phase (gameStateRef a) = MENU \<Longrightarrow> reachable md (startGame rnd a)"
| r_drop: "reachable md a \<Longrightarrow> phase (gameStateRef a) = PLAYING
           \<Longrightarrow> reachable md (handleCoinDrop md d ty a)"
| r_jackpot: "reachable md a \<Longrightarrow> jackpotTimers a = bl # rest
              \<Longrightarrow> reachable md (triggerJackpot md rnd bl (a\<lparr>jackpotTimers := rest\<rparr>))"
| r_split: "reachable md a \<Longrightarrow> reachable md (handleSplit i pos d a)"
| r_explode: "reachable md a \<Longrightarrow> reachable md (handleExplode i a)"
| r_transmute: "reachable md a \<Longrightarrow> reachable md (handleTransmute i a)"
| r_interaction: "reachable md a \<Longrightarrow> reachable md (handleCoinInteraction id1 id2 ty d a)"
| r_collected: "reachable md a \<Longrightarrow> reachable md (handleCoinCollected i ty a)"
| r_roundEnd: "reachable md a \<Longrightarrow> phase (gameStateRef a) = PLAYING
               \<Longrightarrow> reachable md (handleRoundEnd a)"
| r_nextRound: "reachable md a \<Longrightarrow> phase (gameStateRef a) = SHOP \<Longrightarrow> reachable md (nextRound a)"
| r_buy: "reachable md a \<Longrightarrow> phase (gameStateRef a) = SHOP \<Longrightarrow> reachable md (buyItem item cost a)"
| r_reboot: "reachable md a \<Longrightarrow> phase (gameStateRef a) = GAME_OVER \<Longrightarrow> reachable md (reboot a)"

section \<open>The registry invariant\<close>

text \<open>
  Every id of \<open>coinOrder\<close> is a key of \<open>coinMap\<close>, every key is in \<open>coinOrder\<close>, and no id
  is listed twice.
\<close>

definition registry_inv :: "CoinState \<Rightarrow> bool" where
  "registry_inv cs \<longleftrightarrow> distinct (coinOrder cs) \<and> set (coinOrder cs) = dom (coinMap cs)"


section \<open>Vocabulary of the statements\<close>

text \<open>
  The callbacks one contact between the coins \<open>a\<close> and \<open>b\<close> can raise: \<open>a\<close>'s own
  (\<open>self = a\<close>, the other body is \<open>b\<close>'s) or \<open>b\<close>'s; the rest of the payload is free.
  \<open>runCallbacks\<close> delivers a list of callbacks in order, as one tick of the physics does.
\<close>

definition pairCallback :: "CoinData \<Rightarrow> CoinData \<Rightarrow> CoinData \<times> Payload \<Rightarrow> bool" where
  "pairCallback a b cb \<longleftrightarrow>
     (fst cb = a \<and> other_rigidBodyObject (snd cb) = Some (coinBodyObject b)) \<or>
     (fst cb = b \<and> other_rigidBodyObject (snd cb) = Some (coinBodyObject a))"

definition runCallbacks :: "RigidBody list \<Rightarrow> (CoinData \<times> Payload) list \<Rightarrow> pending \<Rightarrow> pending" where
  "runCallbacks world cbs st = foldl (\<lambda>s cb. handleCollision world (snd cb) (fst cb) s) st cbs"

text \<open>The entry of the interactions queue for a combine event: its key and its value.\<close>

definition combineEvent ::
  "string \<Rightarrow> string \<Rightarrow> CoinType \<Rightarrow> string \<times> (string \<times> string \<times> CoinType)" where
  "combineEvent id1 id2 r = (id1 @ '':'' @ id2 @ '':'' @ coinTypeName r, (id1, id2, r))"

subsection \<open>Sample data\<close>

definition seedCoin :: CoinData where
  "seedCoin = \<lparr>coin_id = ''9'', coin_type = SEED, position = (0, 1, 0), rotation = (0, 0, 0),
     hasSplit = None, isActive = None\<rparr>"

definition waterCoin :: CoinData where
  "waterCoin = \<lparr>coin_id = ''i'', coin_type = WATER, position = (2, 1, 4), rotation = (0, 0, 0),
     hasSplit = None, isActive = None\<rparr>"

definition contactWith :: "CoinData \<Rightarrow> Payload" where
  "contactWith other =
     \<lparr>other_rigidBodyObject = Some (coinBodyObject other), other_rigidBody = None,
      target_rigidBody = None, solverContactPoint0 = None\<rparr>"

definition emptyPending :: pending where
  "emptyPending =
     \<lparr>interactions = [], splits = [], transmutations = [], explosions = [], applied = []\<rparr>"

text \<open>Queues that already hold another pair's combine event and an explosion.\<close>

definition busyPending :: pending where
  "busyPending =
     \<lparr>interactions = [(''4i:r:OBSIDIAN'', (''4i'', ''r'', OBSIDIAN))], splits = [],
      transmutations = [], explosions = [''29''], applied = []\<rparr>"

text \<open>
  A sample value for \<open>MACHINE_DIMENSIONS\<close>, with the width and the length the comments of
  the Machine component give (base width 10, 4 per extender level, bed from -7 to 7).
\<close>

definition sampleDimensions :: MachineDimensions where
  "sampleDimensions = \<lparr>baseDropWidth = 8, widthPerLevel = 4, baseWidth = 10, bedLength = 14\<rparr>"

text \<open>A running game with two coins on the bed.\<close>

definition sampleApp :: App where
  "sampleApp =
     initialApp\<lparr>gameState := INITIAL_STATE\<lparr>phase := PLAYING\<rparr>,
                gameStateRef := INITIAL_STATE\<lparr>phase := PLAYING\<rparr>,
                coinState := \<lparr>coinMap = [''9'' \<mapsto> seedCoin, ''i'' \<mapsto> waterCoin],
                               coinOrder = [''9'', ''i'']\<rparr>\<rparr>"

definition sampleDraw :: "string \<Rightarrow> draw" where
  "sampleDraw s = \<lparr>rnd_id = s, rnd_x = 1 / 2, rnd_y = 1 / 4, rnd_z = 3 / 4, rnd_rot = 0\<rparr>"

definition sampleDraws :: "nat \<Rightarrow> draw" where
  "sampleDraws k = sampleDraw (replicate (Suc k) CHR ''z'')"

text \<open>A sequence of split events that all target the id \<open>i\<close>.\<close>

definition splitEvents :: "string \<Rightarrow> (vec3 \<times> draw) list \<Rightarrow> App \<Rightarrow> App" where
  "splitEvents i evs a = foldl (\<lambda>s ev. handleSplit i (fst ev) (snd ev) s) a evs"

text \<open>The ids of the artifact catalog.\<close>

definition catalogIds :: "string set" where
  "catalogIds = art_id ` set SHOP_ARTIFACTS"

text \<open>What holds of the game state in every run (see \<open>reachable_game_inv\<close>).\<close>

definition game_inv :: "GameState \<Rightarrow> bool" where
  "game_inv g \<longleftrightarrow>
     0 \<le> bonus g \<and> bonus g < 100 \<and> 1 \<le> bonusLevel g \<and> 0 \<le> score g
     \<and> (score g = 0 \<longrightarrow> bonusLevel g = 1)
     \<and> art_id ` set (artifacts g) \<subseteq> catalogIds"

text \<open>
  The score a collected coin of type \<open>ty\<close> adds, as \<open>handleCoinCollected\<close> computes it
  from the state it reads: \<open>Math.floor(config.score * scoreMult * bonusMult)\<close> in doubles.
\<close>

definition scoreGain :: "CoinType \<Rightarrow> GameState \<Rightarrow> real" where
  "scoreGain ty state =
     of_int \<lfloor>fl (fl (di_score (COIN_CONFIG ty) * js_pow 1.5 (artifactLevel ''mult'' state))
                   * fl (1 + fl (fl (1 / 10) * (real (bonusLevel state) - 1))))\<rfloor>"

text \<open>
  A new game after its first render; a collection followed by a render, and the new game
  after 24 of them (bonus 96, score 2400); the shop reached from there, since the score
  meets the target of 2000; and the same shop with more cash.
\<close>

definition newGame :: App where
  "newGame = render (startGame sampleDraws initialApp)"

definition collectAndRender :: "string \<Rightarrow> CoinType \<Rightarrow> App \<Rightarrow> App" where
  "collectAndRender i ty a = render (handleCoinCollected i ty a)"

definition fullMeterApp :: App where
  "fullMeterApp = (collectAndRender ''x'' STANDARD ^^ 24) newGame"

definition shopApp :: App where
  "shopApp = render (handleRoundEnd fullMeterApp)"

text \<open>The new game after 23 collections (bonus 92).\<close>

definition meter92App :: App where
  "meter92App = (collectAndRender ''x'' STANDARD ^^ 23) newGame"







definition richShop :: App where
  "richShop = shopApp\<lparr>gameState := (gameState shopApp)\<lparr>cash := 5000\<rparr>,
                       gameStateRef := (gameState shopApp)\<lparr>cash := 5000\<rparr>\<rparr>"

text \<open>
  A bomb that hits hard while a second body has exactly the bomb's translation, and a
  third body at distance 5.
\<close>

definition bombBody :: RigidBody where
  "bombBody = \<lparr>handle = 1, linvel = (0, -6, 0), translation = (0, 5, 0)\<rparr>"

definition twinBody :: RigidBody where
  "twinBody = \<lparr>handle = 2, linvel = (0, 0, 0), translation = (0, 5, 0)\<rparr>"

definition nearBody :: RigidBody where
  "nearBody = \<lparr>handle = 3, linvel = (0, 0, 0), translation = (3, 5, 4)\<rparr>"

definition bombCoin :: CoinData where
  "bombCoin = \<lparr>coin_id = ''r'', coin_type = BOMB, position = (0, 9, 0), rotation = (0, 0, 0),
     hasSplit = None, isActive = None\<rparr>"

definition bombContact :: Payload where
  "bombContact = \<lparr>other_rigidBodyObject = Some \<lparr>userData = None, body_name = []\<rparr>,
     other_rigidBody = Some twinBody, target_rigidBody = Some bombBody,
     solverContactPoint0 = None\<rparr>"

text \<open>A bed with a splitter that has not split yet, and a contact with the pusher.\<close>

definition splitterCoin :: CoinData where
  "splitterCoin = \<lparr>coin_id = ''r'', coin_type = SPLITTER, position = (1, 9, 0),
     rotation = (0, 0, 0), hasSplit = None, isActive = None\<rparr>"

definition splitterApp :: App where
  "splitterApp =
     sampleApp\<lparr>coinState := \<lparr>coinMap = [''9'' \<mapsto> seedCoin, ''i'' \<mapsto> waterCoin,
                                         ''r'' \<mapsto> splitterCoin],
                              coinOrder = [''9'', ''i'', ''r'']\<rparr>\<rparr>"

definition pusherContact :: Payload where
  "pusherContact =
     \<lparr>other_rigidBodyObject = Some \<lparr>userData = None, body_name = ''pusher''\<rparr>,
      other_rigidBody = None, target_rigidBody = None, solverContactPoint0 = Some (0, 1, 0)\<rparr>"

text \<open>A bed on which an earlier merge has left the coin \<open>merged-i\<close>.\<close>

definition oldTree :: CoinData where
  "oldTree = \<lparr>coin_id = ''merged-i'', coin_type = TREE, position = (5, 1, 5),
     rotation = (0, 0, 0), hasSplit = None, isActive = None\<rparr>"

definition crowdedApp :: App where
  "crowdedApp =
     sampleApp\<lparr>coinState := \<lparr>coinMap = [''9'' \<mapsto> seedCoin, ''i'' \<mapsto> waterCoin,
                                         ''merged-i'' \<mapsto> oldTree],
                              coinOrder = [''9'', ''i'', ''merged-i'']\<rparr>\<rparr>"


section \<open>Rounding to doubles\<close>

lemma round_even_ge_floor: "\<lfloor>y\<rfloor> \<le> round_even y"
  by (simp add: round_even_def Let_def)

lemma binade_eqI:
  assumes e: "- 1074 \<le> e" and lo: "2 powi e \<le> x" and hi: "x < 2 powi (e + 1)"
  shows "binade x = e"
proof -
  define k where "k = nat (e + 1074)"
  define c :: real where "c = 2 ^ 1074"
  have c0: "0 < c" by (simp add: c_def)
  have ci: "c = 2 powi 1074" by (simp add: c_def power_int_def)
  have ke: "int k = e + 1074" using e by (simp add: k_def)
  have p: "(2::real) powi e * c = 2 ^ k"
  proof -
    have "(2::real) powi e * 2 powi 1074 = 2 powi (e + 1074)"
      by (rule power_int_add[symmetric]) simp
    also have "\<dots> = 2 powi (int k)" using ke by simp
    also have "\<dots> = 2 ^ k" by (simp only: power_int_of_nat)
    finally show ?thesis by (simp only: ci)
  qed
  have p1: "(2::real) powi (e + 1) * c = 2 ^ Suc k"
  proof -
    have "(2::real) powi (e + 1) = 2 powi e * 2" by (simp add: power_int_add)
    then show ?thesis using p by simp
  qed
  have a: "(2::real) ^ k \<le> x * c"
    using mult_right_mono[OF lo less_imp_le[OF c0]] p by simp
  have b: "x * c < (2::real) ^ Suc k"
    using mult_strict_right_mono[OF hi c0] p1 by simp
  define n where "n = nat \<lfloor>x * c\<rfloor>"
  have fa: "(2::int) ^ k \<le> \<lfloor>x * c\<rfloor>"
    using a by (simp add: le_floor_iff)
  have fb: "\<lfloor>x * c\<rfloor> < (2::int) ^ Suc k"
    using b by (simp add: floor_less_iff)
  have nn: "int n = \<lfloor>x * c\<rfloor>"
    using fa unfolding n_def by (smt (verit) nat_0_le zero_less_power)
  have n1: "2 ^ k \<le> n"
    using fa nn by (metis of_nat_le_iff of_nat_numeral of_nat_power)
  have n2: "n < 2 ^ Suc k"
    using fb nn by (metis of_nat_less_iff of_nat_numeral of_nat_power)
  have "Suc k \<le> floorlog 2 n" using n1 by (intro floorlog_ge_SucI) simp_all
  moreover have "floorlog 2 n \<le> Suc k" using n2 by (intro floorlog_leI) simp_all
  ultimately have "floorlog 2 n = Suc k" by simp
  then have "int (floorlog 2 (nat \<lfloor>x * c\<rfloor>)) - 1075 = e"
    unfolding n_def using ke by simp
  then show ?thesis unfolding binade_def c_def .
qed

lemma fl_eval:
  assumes e: "- 1022 \<le> e" and lo: "2 powi e \<le> x" and hi: "x < 2 powi (e + 1)"
  shows "fl x = 2 powi (e - 52) * of_int (round_even (x / 2 powi (e - 52)))"
proof -
  have "(0::real) < 2 powi e" by simp
  with lo have pos: "0 < x" by linarith
  have b: "binade x = e" using e lo hi by (intro binade_eqI) simp_all
  have m: "max (binade \<bar>x\<bar> - 52) (- 1074) = e - 52"
    using pos b e by simp
  have s: "sgn x = 1" "\<bar>x\<bar> = x" "x \<noteq> 0" using pos by simp_all
  show ?thesis
    unfolding fl_def Let_def m by (simp only: s if_False mult_1)
qed

text \<open>
  For evaluation: scale \<open>x\<close> into the integers of 53 bits and round there.
\<close>

lemma fl_scaled:
  assumes s: "s \<le> 1074" and lo: "2 ^ 52 \<le> x * 2 ^ s" and hi: "x * 2 ^ s < 2 ^ 53"
  shows "fl x = of_int (round_even (x * 2 ^ s)) / 2 ^ s"
proof -
  define e where "e = 52 - int s"
  have u: "(2::real) powi (e - 52) = 1 / 2 ^ s"
    by (simp add: e_def power_int_minus field_simps)
  have pe: "(2::real) powi e = 2 ^ 52 / 2 ^ s"
    unfolding e_def by (simp add: power_int_diff)
  have pe1: "(2::real) powi (e + 1) = 2 ^ 53 / 2 ^ s"
  proof -
    have "(2::real) powi (e + 1) = 2 powi e * 2" by (simp add: power_int_add)
    then show ?thesis using pe by simp
  qed
  have a: "2 powi e \<le> x" unfolding pe using lo by (simp add: field_simps)
  have b: "x < 2 powi (e + 1)" unfolding pe1 using hi by (simp add: field_simps)
  have "- 1022 \<le> e" using s by (simp add: e_def)
  from fl_eval[OF this a b] show ?thesis unfolding u by simp
qed

lemma binade_exists:
  fixes x :: real
  assumes "1 \<le> x"
  shows "\<exists>e\<ge>0. 2 powi e \<le> x \<and> x < 2 powi (e + 1)"
proof -
  define e where "e = \<lfloor>log 2 x\<rfloor>"
  have x: "0 < x" using assms by simp
  have "0 \<le> log 2 x" using assms by simp
  then have e0: "0 \<le> e" by (simp add: e_def)
  have "2 powr e \<le> x \<and> x < 2 powr (e + 1)"
    using floor_log_eq_powr_iff[of x 2 e] x by (simp add: e_def)
  then have "2 powi e \<le> x \<and> x < 2 powi (e + 1)"
    using powr_real_of_int'[of 2 e] powr_real_of_int'[of 2 "e + 1"] by simp
  with e0 show ?thesis by blast
qed

lemma fl_ge_one:
  assumes "1 \<le> x"
  shows "1 \<le> fl x"
proof -
  from binade_exists[OF assms] obtain e where e: "0 \<le> e"
    and lo: "2 powi e \<le> x" and hi: "x < 2 powi (e + 1)" by blast
  define u :: real where "u = 2 powi (e - 52)"
  define c :: real where "c = 2 ^ 52"
  have u: "0 < u" by (simp add: u_def)
  have f: "fl x = u * of_int (round_even (x / u))"
    unfolding u_def using e lo hi by (intro fl_eval) simp_all
  have q: "(2::real) powi e = u * c"
    unfolding u_def c_def by (simp add: power_int_diff)
  have "u * c \<le> x" using lo q by simp
  then have "c \<le> x / u" using u by (simp add: field_simps)
  then have "(2::int) ^ 52 \<le> \<lfloor>x / u\<rfloor>" unfolding c_def by (simp add: le_floor_iff)
  then have "(2::int) ^ 52 \<le> round_even (x / u)"
    using round_even_ge_floor[of "x / u"] by linarith
  then have "real_of_int (2 ^ 52) \<le> of_int (round_even (x / u))"
    by (simp only: of_int_le_iff)
  then have "c \<le> of_int (round_even (x / u))" by (simp add: c_def)
  then have "u * c \<le> fl x"
    unfolding f using u by (simp add: mult_left_mono)
  moreover have "(1::real) \<le> 2 powi e" using e by (simp add: one_le_power_int)
  ultimately show ?thesis using q by linarith
qed

lemma fl_nonneg:
  assumes "0 \<le> x"
  shows "0 \<le> fl x"
proof (cases "x = 0")
  case True
  then show ?thesis by (simp add: fl_def)
next
  case False
  with assms have x: "0 < x" by simp
  define u :: real where "u = 2 powi (max (binade \<bar>x\<bar> - 52) (- 1074))"
  have u: "0 < u" by (simp add: u_def)
  have "0 \<le> \<bar>x\<bar> / u" using u by simp
  then have "0 \<le> \<lfloor>\<bar>x\<bar> / u\<rfloor>" by simp
  then have "0 \<le> round_even (\<bar>x\<bar> / u)"
    using round_even_ge_floor[of "\<bar>x\<bar> / u"] by linarith
  then have "0 \<le> sgn x * u * of_int (round_even (\<bar>x\<bar> / u))"
    using x u by simp
  then show ?thesis using False unfolding fl_def Let_def u_def by (simp only: if_False)
qed

lemma fl_0: "fl 0 = 0" by (simp add: fl_def)

lemma fl_1: "fl 1 = 1"
  using fl_scaled[of 52 1] by (simp add: round_even_def)

lemma fl_100: "fl 100 = 100"
  using fl_scaled[of 46 100] by (simp add: round_even_def)


lemma fl_10000: "fl 10000 = 10000"
  using fl_scaled[of 39 10000] by (simp add: round_even_def)


section \<open>The collision reducer enqueues one combine event per pair\<close>

lemma interactionResults_sym:
  "interactionResults t1 t2 = Some r \<Longrightarrow> interactionResults t2 t1 = Some r"
  by (cases t1; cases t2; simp)

lemma interactionResults_types:
  "interactionResults t1 t2 = Some r \<Longrightarrow>
   t1 \<in> interactionCoinTypes \<and> t2 \<in> interactionCoinTypes"
  by (cases t1; cases t2; simp add: interactionCoinTypes_def)

lemma interaction_not_special:
  "t \<in> interactionCoinTypes \<Longrightarrow>
   t \<in> activeCollisionCoinTypes \<and> t \<noteq> SPLITTER \<and> t \<noteq> GOLD \<and> t \<noteq> BOMB"
  by (auto simp: interactionCoinTypes_def activeCollisionCoinTypes_def)

text \<open>One callback of a coin whose type reacts with the other coin's type.\<close>

lemma handleCollision_pair:
  assumes r: "interactionResults (coin_type self) (coin_type other) = Some r"
    and p: "other_rigidBodyObject payload = Some (coinBodyObject other)"
  shows "handleCollision world payload self st =
     (if coin_id self < coin_id other
      then queueInteraction (coin_id self) (coin_id other) r st else st)"
proof -
  from r have t: "coin_type self \<in> interactionCoinTypes"
    using interactionResults_types by blast
  with interaction_not_special[OF t] r p show ?thesis
    by (auto simp: handleCollision_def coinBodyObject_def Let_def)
qed

lemma queueInteraction_twice:
  "queueInteraction id1 id2 r (queueInteraction id1 id2 r st) = queueInteraction id1 id2 r st"
  by (simp add: queueInteraction_def Let_def)

lemma runCallbacks_ordered:
  assumes lt: "coin_id a < coin_id b"
    and r: "interactionResults (coin_type a) (coin_type b) = Some r"
    and cbs: "\<forall>cb \<in> set cbs. pairCallback a b cb"
  shows "runCallbacks world cbs st =
     (if (\<exists>cb \<in> set cbs. fst cb = a)
      then queueInteraction (coin_id a) (coin_id b) r st else st)"
  using cbs
proof (induction cbs arbitrary: st)
  case Nil
  then show ?case by (simp add: runCallbacks_def)
next
  case (Cons cb cbs)
  have r': "interactionResults (coin_type b) (coin_type a) = Some r"
    using r by (rule interactionResults_sym)
  have ab: "a \<noteq> b" using lt by auto
  have nlt: "\<not> coin_id b < coin_id a" using lt by auto
  from Cons.prems have shape: "pairCallback a b cb"
    and rest: "\<forall>c \<in> set cbs. pairCallback a b c"
    by simp_all
  have unfold: "runCallbacks world (cb # cbs) st
      = runCallbacks world cbs (handleCollision world (snd cb) (fst cb) st)"
    by (simp add: runCallbacks_def)
  show ?case
  proof (cases "fst cb = a")
    case True
    with shape ab have p: "other_rigidBodyObject (snd cb) = Some (coinBodyObject b)"
      by (auto simp: pairCallback_def)
    have step: "handleCollision world (snd cb) (fst cb) st
        = queueInteraction (coin_id a) (coin_id b) r st"
      using handleCollision_pair[OF r p, of world st] lt True by simp
    show ?thesis
      using True unfold step Cons.IH[OF rest, of "queueInteraction (coin_id a) (coin_id b) r st"]
      by (simp add: queueInteraction_twice)
  next
    case False
    with shape have fb: "fst cb = b"
      and p: "other_rigidBodyObject (snd cb) = Some (coinBodyObject a)"
      by (auto simp: pairCallback_def)
    have step: "handleCollision world (snd cb) (fst cb) st = st"
      using handleCollision_pair[OF r' p, of world st] nlt fb by simp
    show ?thesis using False unfold step Cons.IH[OF rest, of st] by simp
  qed
qed

text \<open>\<open>Map.prototype.set\<close> on the association list.\<close>

lemma update_others:
  "filter (\<lambda>e. fst e \<noteq> k) (AList.update k v al) = filter (\<lambda>e. fst e \<noteq> k) al"
  by (induction al) auto

lemma update_new_key:
  "k \<notin> fst ` set al \<Longrightarrow> AList.update k v al = al @ [(k, v)]"
  by (induction al) auto

lemma update_one_entry:
  "distinct (map fst al) \<Longrightarrow> length (filter (\<lambda>e. fst e = k) (AList.update k v al)) = 1"
proof (induction al)
  case Nil
  then show ?case by simp
next
  case (Cons e al)
  show ?case
  proof (cases "fst e = k")
    case True
    with Cons.prems have "k \<notin> fst ` set al" by auto
    then have "filter (\<lambda>e. fst e = k) al = []" by (auto simp: filter_empty_conv)
    with True show ?thesis by (cases e) simp
  next
    case False
    with Cons show ?thesis by (cases e) simp
  qed
qed

text \<open>
  C1. Two coins with different ids whose types have an entry in the rule table touch.
  Whatever callbacks the contact raises in a tick, in whatever order and however often,
  as long as each side's callback arrives at least once, and whatever the pending queues
  hold already, afterwards the map of combine events holds under the key
  \<open>id1:id2:result\<close>, with \<open>id1 < id2\<close> the two ids in lexicographic order, the event
  \<open>(id1, id2, result)\<close>, and it holds that key once; the entries under other keys and
  the other queues are as they were. When the key was not in the map, the map has grown
  by exactly that one entry, so a map that was empty holds that entry alone.
\<close>

theorem collision_dedup_one_event:
  fixes a b :: CoinData and r :: CoinType and cbs :: "(CoinData \<times> Payload) list"
    and world :: "RigidBody list" and st :: pending and lo hi key :: string
  assumes ids: "coin_id a \<noteq> coin_id b"
    and r: "interactionResults (coin_type a) (coin_type b) = Some r"
    and cbs: "\<forall>cb \<in> set cbs. pairCallback a b cb"
    and froma: "\<exists>cb \<in> set cbs. fst cb = a"
    and fromb: "\<exists>cb \<in> set cbs. fst cb = b"
  defines "lo \<equiv> min (coin_id a) (coin_id b)"
  defines "hi \<equiv> max (coin_id a) (coin_id b)"
  defines "key \<equiv> lo @ '':'' @ hi @ '':'' @ coinTypeName r"
  shows "runCallbacks world cbs st
           = st\<lparr>interactions := AList.update key (lo, hi, r) (interactions st)\<rparr>
         \<and> map_of (interactions (runCallbacks world cbs st)) key = Some (lo, hi, r)
         \<and> (distinct (map fst (interactions st)) \<longrightarrow>
              distinct (map fst (interactions (runCallbacks world cbs st)))
            \<and> length (filter (\<lambda>e. fst e = key) (interactions (runCallbacks world cbs st))) = 1)
         \<and> filter (\<lambda>e. fst e \<noteq> key) (interactions (runCallbacks world cbs st))
             = filter (\<lambda>e. fst e \<noteq> key) (interactions st)
         \<and> (key \<notin> fst ` set (interactions st) \<longrightarrow>
              interactions (runCallbacks world cbs st)
                = interactions st @ [(key, (lo, hi, r))])
         \<and> (interactions st = [] \<longrightarrow>
              interactions (runCallbacks world cbs st) = [combineEvent lo hi r])
         \<and> runCallbacks world cbs st = queueInteraction lo hi r st
         \<and> lo < hi"
proof -
  have run: "runCallbacks world cbs st = queueInteraction lo hi r st"
  proof (cases "coin_id a < coin_id b")
    case True
    then have m: "lo = coin_id a" "hi = coin_id b"
      by (simp_all add: lo_def hi_def min_absorb1 max_absorb2 less_imp_le)
    show ?thesis unfolding m
      using runCallbacks_ordered[OF True r cbs, of world st] froma by simp
  next
    case False
    with ids have lt: "coin_id b < coin_id a" by auto
    then have m: "lo = coin_id b" "hi = coin_id a"
      by (simp_all add: lo_def hi_def min_absorb2 max_absorb1 less_imp_le)
    have cbs': "\<forall>cb \<in> set cbs. pairCallback b a cb"
      using cbs by (auto simp: pairCallback_def)
    show ?thesis unfolding m
      using runCallbacks_ordered[OF lt interactionResults_sym[OF r] cbs', of world st] fromb
      by simp
  qed
  have lt: "lo < hi"
    using ids by (auto simp: lo_def hi_def min_def max_def)
  have q: "queueInteraction lo hi r st
             = st\<lparr>interactions := AList.update key (lo, hi, r) (interactions st)\<rparr>"
    by (simp add: queueInteraction_def Let_def key_def)
  have i: "interactions (runCallbacks world cbs st)
             = AList.update key (lo, hi, r) (interactions st)"
    unfolding run q by simp
  have c2: "map_of (interactions (runCallbacks world cbs st)) key = Some (lo, hi, r)"
    unfolding i by (simp add: AList.update_conv')
  have c3: "distinct (map fst (interactions st)) \<longrightarrow>
              distinct (map fst (interactions (runCallbacks world cbs st)))
            \<and> length (filter (\<lambda>e. fst e = key) (interactions (runCallbacks world cbs st))) = 1"
    unfolding i by (simp add: AList.distinct_update update_one_entry)
  have c4: "filter (\<lambda>e. fst e \<noteq> key) (interactions (runCallbacks world cbs st))
             = filter (\<lambda>e. fst e \<noteq> key) (interactions st)"
    unfolding i by (rule update_others)
  have c5: "key \<notin> fst ` set (interactions st) \<longrightarrow>
              interactions (runCallbacks world cbs st)
                = interactions st @ [(key, (lo, hi, r))]"
    unfolding i by (simp add: update_new_key)
  have c6: "interactions st = [] \<longrightarrow>
              interactions (runCallbacks world cbs st) = [combineEvent lo hi r]"
    unfolding i by (simp add: combineEvent_def key_def)
  show ?thesis
    using run q c2 c3 c4 c5 c6 lt by simp
qed

theorem collision_dedup_one_event_witness:
  "runCallbacks [] [(waterCoin, contactWith seedCoin), (seedCoin, contactWith waterCoin),
                    (waterCoin, contactWith seedCoin)] busyPending
     = busyPending\<lparr>interactions := [(''4i:r:OBSIDIAN'', (''4i'', ''r'', OBSIDIAN)),
                                     (''9:i:TREE'', (''9'', ''i'', TREE))]\<rparr>
   \<and> length (filter (\<lambda>e. fst e = ''9:i:TREE'')
        (interactions (runCallbacks [] [(waterCoin, contactWith seedCoin),
           (seedCoin, contactWith waterCoin), (waterCoin, contactWith seedCoin)] busyPending)))
       = 1
   \<and> runCallbacks [] [(seedCoin, contactWith waterCoin), (waterCoin, contactWith seedCoin)]
        emptyPending
     = emptyPending\<lparr>interactions := [(''9:i:TREE'', (''9'', ''i'', TREE))]\<rparr>"
  using collision_dedup_one_event[of seedCoin waterCoin TREE
     "[(waterCoin, contactWith seedCoin), (seedCoin, contactWith waterCoin),
       (waterCoin, contactWith seedCoin)]" "[]" busyPending]
    collision_dedup_one_event[of seedCoin waterCoin TREE
     "[(seedCoin, contactWith waterCoin), (waterCoin, contactWith seedCoin)]" "[]" emptyPending]
  by (simp add: seedCoin_def waterCoin_def contactWith_def emptyPending_def busyPending_def
      pairCallback_def combineEvent_def)


section \<open>The registry invariant under the registry operations\<close>

lemma dom_mapWith: "dom (mapWith m coins) = dom m \<union> coin_id ` set coins"
  unfolding mapWith_def by (induction coins arbitrary: m) auto

lemma spawnCoin_inv:
  assumes "registry_inv (coinState a)"
    and "(if isFree then ''bonus-'' else []) @ rnd_id d \<notin> dom (coinMap (coinState a))"
  shows "registry_inv (coinState (spawnCoin md d ty isFree a))"
  using assms by (auto simp: spawnCoin_def Let_def registry_inv_def)

lemma handleSplit_inv:
  assumes "registry_inv (coinState a)"
    and "''clone-'' @ rnd_id d \<notin> dom (coinMap (coinState a))"
  shows "registry_inv (coinState (handleSplit i pos d a))"
  using assms by (auto simp: handleSplit_def Let_def registry_inv_def split: option.splits prod.splits)

lemma handleCoinInteraction_inv:
  assumes "registry_inv (coinState a)"
    and "''merged-'' @ rnd_id d \<notin> dom (coinMap (coinState a)) - {id1, id2}"
  shows "registry_inv (coinState (handleCoinInteraction id1 id2 ty d a))"
  using assms by (auto simp: handleCoinInteraction_def Let_def registry_inv_def split: option.splits prod.splits)

lemma handleTransmute_inv:
  assumes "registry_inv (coinState a)"
  shows "registry_inv (coinState (handleTransmute i a))"
  using assms by (auto simp: handleTransmute_def Let_def registry_inv_def split: option.splits)

lemma handleExplode_inv:
  assumes "registry_inv (coinState a)"
  shows "registry_inv (coinState (handleExplode i a))"
  using assms by (auto simp: handleExplode_def Let_def registry_inv_def split: option.splits)

lemma handleCoinCollected_inv:
  assumes "registry_inv (coinState a)"
  shows "registry_inv (coinState (handleCoinCollected i ty a))"
  using assms by (auto simp: handleCoinCollected_def Let_def registry_inv_def split: option.splits)

lemma registry_inv_mint:
  assumes "registry_inv cs" "distinct (map coin_id coins)"
    and "\<forall>c \<in> set coins. coin_id c \<notin> dom (coinMap cs)"
  shows "registry_inv \<lparr>coinMap = mapWith (coinMap cs) coins,
                      coinOrder = coinOrder cs @ map coin_id coins\<rparr>"
  using assms by (auto simp: registry_inv_def dom_mapWith)

lemma triggerJackpot_inv:
  assumes "registry_inv (coinState a)"
    and "distinct (map (\<lambda>k. rnd_id (rnd k)) [0..<jackpotCoins md (gameStateRef a) bl])"
    and "\<forall>k < jackpotCoins md (gameStateRef a) bl.
           ''bonus-'' @ rnd_id (rnd k) \<notin> dom (coinMap (coinState a))"
  shows "registry_inv (coinState (triggerJackpot md rnd bl a))"
proof -
  let ?n = "jackpotCoins md (gameStateRef a) bl"
  obtain coins where cs: "coinState (triggerJackpot md rnd bl a)
      = \<lparr>coinMap = mapWith (coinMap (coinState a)) coins,
         coinOrder = coinOrder (coinState a) @ map coin_id coins\<rparr>"
    and ids: "map coin_id coins = map (\<lambda>k. ''bonus-'' @ rnd_id (rnd k)) [0..<?n]"
    by (simp add: triggerJackpot_def Let_def comp_def)
  have d: "distinct (map coin_id coins)"
    unfolding ids using assms(2) by (simp add: distinct_map inj_on_def)
  have "set (map coin_id coins) \<inter> dom (coinMap (coinState a)) = {}"
    unfolding ids using assms(3) by auto
  then have f: "\<forall>c \<in> set coins. coin_id c \<notin> dom (coinMap (coinState a))"
    by auto
  show ?thesis
    unfolding cs using registry_inv_mint[OF assms(1) d f] by simp
qed

lemma startGame_inv:
  assumes "distinct (map (\<lambda>k. rnd_id (rnd k)) [0..<60])"
  shows "registry_inv (coinState (startGame rnd a))"
proof -
  define coins where "coins =
     map (\<lambda>i. \<lparr>coin_id = ''start-'' @ rnd_id (rnd i), coin_type = STANDARD,
                position = ((rnd_x (rnd i) - 0.5) * 8, 2 + rnd_y (rnd i) * 5, rnd_z (rnd i) * 7),
                rotation = (0, rnd_rot (rnd i) * pi * 2, 0),
                hasSplit = None, isActive = None\<rparr>) [0..<60]"
  have ids: "map coin_id coins = map (\<lambda>k. ''start-'' @ rnd_id (rnd k)) [0..<60]"
    by (simp add: coins_def comp_def)
  have d: "distinct (map coin_id coins)"
    unfolding ids using assms by (simp add: distinct_map inj_on_def)
  have e: "registry_inv \<lparr>coinMap = Map.empty, coinOrder = []\<rparr>"
    by (simp add: registry_inv_def)
  have cs: "coinState (startGame rnd a)
      = \<lparr>coinMap = mapWith Map.empty coins, coinOrder = map coin_id coins\<rparr>"
    by (simp add: startGame_def Let_def coins_def)
  show ?thesis
    unfolding cs using registry_inv_mint[OF e d] by simp
qed

lemma reboot_inv: "registry_inv (coinState (reboot a))"
  by (simp add: reboot_def registry_inv_def)

text \<open>
  C2. The registry operations keep \<open>coinOrder\<close> and the keys of \<open>coinMap\<close> in
  step, each id once, provided the ids they mint are new: spawn, split and merge when the
  id built from the random string is not a key yet (for a merge, not a key other than the
  two reactants), the jackpot burst and the initial fill when the random strings of one
  batch differ from each other (and, for the burst, from the keys). Transmute, explode and
  collect keep the invariant without any condition.
\<close>

theorem registry_inv_preserved:
  assumes inv: "registry_inv (coinState a)"
  shows "((if isFree then ''bonus-'' else []) @ rnd_id d1 \<notin> dom (coinMap (coinState a))
            \<longrightarrow> registry_inv (coinState (spawnCoin md d1 ty1 isFree a)))
       \<and> (''clone-'' @ rnd_id d2 \<notin> dom (coinMap (coinState a))
            \<longrightarrow> registry_inv (coinState (handleSplit i2 pos d2 a)))
       \<and> (''merged-'' @ rnd_id d3 \<notin> dom (coinMap (coinState a)) - {id1, id2}
            \<longrightarrow> registry_inv (coinState (handleCoinInteraction id1 id2 ty3 d3 a)))
       \<and> registry_inv (coinState (handleTransmute i4 a))
       \<and> registry_inv (coinState (handleExplode i5 a))
       \<and> registry_inv (coinState (handleCoinCollected i6 ty6 a))
       \<and> (distinct (map (\<lambda>k. rnd_id (rnd7 k)) [0..<jackpotCoins md (gameStateRef a) bl])
           \<and> (\<forall>k < jackpotCoins md (gameStateRef a) bl.
                 ''bonus-'' @ rnd_id (rnd7 k) \<notin> dom (coinMap (coinState a)))
            \<longrightarrow> registry_inv (coinState (triggerJackpot md rnd7 bl a)))
       \<and> (distinct (map (\<lambda>k. rnd_id (rnd8 k)) [0..<60])
            \<longrightarrow> registry_inv (coinState (startGame rnd8 a)))"
proof (intro conjI impI)
  assume "(if isFree then ''bonus-'' else []) @ rnd_id d1 \<notin> dom (coinMap (coinState a))"
  then show "registry_inv (coinState (spawnCoin md d1 ty1 isFree a))"
    by (rule spawnCoin_inv[OF inv])
next
  assume "''clone-'' @ rnd_id d2 \<notin> dom (coinMap (coinState a))"
  then show "registry_inv (coinState (handleSplit i2 pos d2 a))"
    by (rule handleSplit_inv[OF inv])
next
  assume "''merged-'' @ rnd_id d3 \<notin> dom (coinMap (coinState a)) - {id1, id2}"
  then show "registry_inv (coinState (handleCoinInteraction id1 id2 ty3 d3 a))"
    by (rule handleCoinInteraction_inv[OF inv])
next
  show "registry_inv (coinState (handleTransmute i4 a))"
    by (rule handleTransmute_inv[OF inv])
next
  show "registry_inv (coinState (handleExplode i5 a))"
    by (rule handleExplode_inv[OF inv])
next
  show "registry_inv (coinState (handleCoinCollected i6 ty6 a))"
    by (rule handleCoinCollected_inv[OF inv])
next
  assume "distinct (map (\<lambda>k. rnd_id (rnd7 k)) [0..<jackpotCoins md (gameStateRef a) bl])
           \<and> (\<forall>k < jackpotCoins md (gameStateRef a) bl.
                 ''bonus-'' @ rnd_id (rnd7 k) \<notin> dom (coinMap (coinState a)))"
  then show "registry_inv (coinState (triggerJackpot md rnd7 bl a))"
    using triggerJackpot_inv[OF inv] by blast
next
  assume "distinct (map (\<lambda>k. rnd_id (rnd8 k)) [0..<60])"
  then show "registry_inv (coinState (startGame rnd8 a))"
    by (rule startGame_inv)
qed

lemma sample_inv: "registry_inv (coinState sampleApp)"
  by (auto simp: sampleApp_def registry_inv_def initialApp_def)

lemma sample_dom: "dom (coinMap (coinState sampleApp)) = {''9'', ''i''}"
  by (auto simp: sampleApp_def initialApp_def)

lemma sampleDraws_distinct: "distinct (map (\<lambda>k. rnd_id (sampleDraws k)) [0..<n])"
proof -
  have "inj (\<lambda>k. replicate (Suc k) CHR ''z'')"
    by (rule injI) (metis length_replicate nat.inject)
  then show ?thesis
    by (simp add: distinct_map sampleDraws_def sampleDraw_def inj_on_def)
qed

lemma sampleDraws_fresh: "''bonus-'' @ rnd_id (sampleDraws k) \<notin> dom (coinMap (coinState sampleApp))"
  by (simp add: sample_dom)

theorem registry_inv_preserved_witness:
  "registry_inv (coinState (spawnCoin sampleDimensions (sampleDraw ''r'') GOLD True sampleApp))
   \<and> registry_inv (coinState (handleSplit ''9'' (0, 1, 0) (sampleDraw ''r'') sampleApp))
   \<and> registry_inv (coinState (handleCoinInteraction ''9'' ''i'' TREE (sampleDraw ''r'') sampleApp))
   \<and> registry_inv (coinState (handleTransmute ''9'' sampleApp))
   \<and> registry_inv (coinState (handleExplode ''9'' sampleApp))
   \<and> registry_inv (coinState (handleCoinCollected ''9'' SEED sampleApp))
   \<and> registry_inv (coinState (triggerJackpot sampleDimensions sampleDraws 2 sampleApp))
   \<and> registry_inv (coinState (startGame sampleDraws sampleApp))"
proof -
  have f1: "(if True then ''bonus-'' else []) @ rnd_id (sampleDraw ''r'')
              \<notin> dom (coinMap (coinState sampleApp))"
    and f2: "''clone-'' @ rnd_id (sampleDraw ''r'') \<notin> dom (coinMap (coinState sampleApp))"
    and f3: "''merged-'' @ rnd_id (sampleDraw ''r'')
              \<notin> dom (coinMap (coinState sampleApp)) - {''9'', ''i''}"
    by (simp_all add: sample_dom)
  show ?thesis
    using registry_inv_preserved[OF sample_inv, where isFree = True and ?d1.0 = "sampleDraw ''r''"
        and md = sampleDimensions and ?ty1.0 = GOLD and ?d2.0 = "sampleDraw ''r''"
        and ?i2.0 = "''9''" and pos = "(0, 1, 0)" and ?d3.0 = "sampleDraw ''r''"
        and ?id1.0 = "''9''" and ?id2.0 = "''i''" and ?ty3.0 = TREE and ?i4.0 = "''9''"
        and ?i5.0 = "''9''" and ?i6.0 = "''9''" and ?ty6.0 = SEED and ?rnd7.0 = sampleDraws
        and bl = 2 and ?rnd8.0 = sampleDraws]
      f1 f2 f3 sampleDraws_fresh sampleDraws_distinct
    by blast
qed


section \<open>Combine events\<close>

lemma handleCoinInteraction_present:
  assumes c1: "coinMap (coinState a) id1 = Some coin1"
    and c2: "coinMap (coinState a) id2 = Some coin2"
  shows "handleCoinInteraction id1 id2 resultType d a =
     a\<lparr>coinState :=
        \<lparr>coinMap = (coinMap (coinState a))(id1 := None, id2 := None,
            ''merged-'' @ rnd_id d \<mapsto>
              \<lparr>coin_id = ''merged-'' @ rnd_id d, coin_type = resultType,
               position = ((fst (position coin1) + fst (position coin2)) / 2,
                           (fst (snd (position coin1)) + fst (snd (position coin2))) / 2,
                           (snd (snd (position coin1)) + snd (snd (position coin2))) / 2),
               rotation = (0, 0, 0), hasSplit = None, isActive = None\<rparr>),
         coinOrder = filter (\<lambda>coinId. coinId \<noteq> id1 \<and> coinId \<noteq> id2) (coinOrder (coinState a))
                     @ [''merged-'' @ rnd_id d]\<rparr>\<rparr>"
  using c1 c2 by (simp add: handleCoinInteraction_def Let_def split: prod.splits)

lemma handleCoinInteraction_absent:
  assumes "coinMap (coinState a) id1 = None \<or> coinMap (coinState a) id2 = None"
  shows "handleCoinInteraction id1 id2 resultType d a = a"
  using assms by (auto simp: handleCoinInteraction_def Let_def split: option.splits)

text \<open>
  C7. When both ids of a combine event are keys of the registry, the event removes the two
  reactants and puts one entity under the id \<open>merged-<random string>\<close>: it has that id,
  the product type, the componentwise midpoint of the two reactants' positions and zero
  rotation; its id goes to the end of \<open>coinOrder\<close>, from which the two reactants' ids are
  removed; a reactant's id is no longer a key unless the new id is that very id; every
  other entry is left as it was, the keys are the old ones without the reactants plus the
  new id, and nothing but the registry changes. The new id is not checked against the
  registry. When either id is absent, nothing changes.
\<close>

theorem combine_event_effect:
  fixes a :: App and id1 id2 :: string and resultType :: CoinType and d :: draw
  defines "reg \<equiv> coinMap (coinState a)"
  defines "a' \<equiv> handleCoinInteraction id1 id2 resultType d a"
  defines "newId \<equiv> ''merged-'' @ rnd_id d"
  shows "(reg id1 = Some coin1 \<and> reg id2 = Some coin2 \<longrightarrow>
            coinMap (coinState a') newId =
              Some \<lparr>coin_id = newId, coin_type = resultType,
                    position = ((fst (position coin1) + fst (position coin2)) / 2,
                                (fst (snd (position coin1)) + fst (snd (position coin2))) / 2,
                                (snd (snd (position coin1)) + snd (snd (position coin2))) / 2),
                    rotation = (0, 0, 0), hasSplit = None, isActive = None\<rparr>
          \<and> coinOrder (coinState a') =
              filter (\<lambda>coinId. coinId \<noteq> id1 \<and> coinId \<noteq> id2) (coinOrder (coinState a)) @ [newId]
          \<and> (\<forall>k. k \<noteq> id1 \<and> k \<noteq> id2 \<and> k \<noteq> newId \<longrightarrow> coinMap (coinState a') k = reg k)
          \<and> (newId \<noteq> id1 \<longrightarrow> coinMap (coinState a') id1 = None)
          \<and> (newId \<noteq> id2 \<longrightarrow> coinMap (coinState a') id2 = None)
          \<and> dom (coinMap (coinState a')) = (dom reg - {id1, id2}) \<union> {newId}
          \<and> a' = a\<lparr>coinState := coinState a'\<rparr>)
       \<and> (reg id1 = None \<or> reg id2 = None \<longrightarrow> a' = a)"
proof (intro conjI impI)
  assume "reg id1 = None \<or> reg id2 = None"
  then show "a' = a"
    unfolding a'_def reg_def by (rule handleCoinInteraction_absent)
next
  assume p: "reg id1 = Some coin1 \<and> reg id2 = Some coin2"
  then have eq: "a' = a\<lparr>coinState :=
        \<lparr>coinMap = (coinMap (coinState a))(id1 := None, id2 := None,
            ''merged-'' @ rnd_id d \<mapsto>
              \<lparr>coin_id = ''merged-'' @ rnd_id d, coin_type = resultType,
               position = ((fst (position coin1) + fst (position coin2)) / 2,
                           (fst (snd (position coin1)) + fst (snd (position coin2))) / 2,
                           (snd (snd (position coin1)) + snd (snd (position coin2))) / 2),
               rotation = (0, 0, 0), hasSplit = None, isActive = None\<rparr>),
         coinOrder = filter (\<lambda>coinId. coinId \<noteq> id1 \<and> coinId \<noteq> id2) (coinOrder (coinState a))
                     @ [''merged-'' @ rnd_id d]\<rparr>\<rparr>"
    unfolding a'_def reg_def by (simp add: handleCoinInteraction_present)
  show "coinMap (coinState a') newId =
              Some \<lparr>coin_id = newId, coin_type = resultType,
                    position = ((fst (position coin1) + fst (position coin2)) / 2,
                                (fst (snd (position coin1)) + fst (snd (position coin2))) / 2,
                                (snd (snd (position coin1)) + snd (snd (position coin2))) / 2),
                    rotation = (0, 0, 0), hasSplit = None, isActive = None\<rparr>"
    unfolding eq newId_def by simp
  show "coinOrder (coinState a') =
              filter (\<lambda>coinId. coinId \<noteq> id1 \<and> coinId \<noteq> id2) (coinOrder (coinState a)) @ [newId]"
    unfolding eq newId_def by simp
  show "\<forall>k. k \<noteq> id1 \<and> k \<noteq> id2 \<and> k \<noteq> newId \<longrightarrow> coinMap (coinState a') k = reg k"
    unfolding eq newId_def reg_def by simp
  show "dom (coinMap (coinState a')) = (dom reg - {id1, id2}) \<union> {newId}"
    unfolding eq newId_def reg_def by auto
  show "a' = a\<lparr>coinState := coinState a'\<rparr>"
    unfolding eq by simp
  {
    assume ne: "newId \<noteq> id1"
    show "coinMap (coinState a') id1 = None"
      using ne unfolding eq newId_def by simp
  }
  {
    assume ne: "newId \<noteq> id2"
    show "coinMap (coinState a') id2 = None"
      using ne unfolding eq newId_def by simp
  }
qed

section \<open>Events for ids that are no longer in the registry\<close>

lemma handleSplit_absent: "coinMap (coinState a) i = None \<Longrightarrow> handleSplit i pos d a = a"
  by (simp add: handleSplit_def Let_def)
lemma handleTransmute_absent: "coinMap (coinState a) i = None \<Longrightarrow> handleTransmute i a = a"
  by (simp add: handleTransmute_def Let_def)
lemma handleExplode_absent: "coinMap (coinState a) i = None \<Longrightarrow> handleExplode i a = a"
  by (simp add: handleExplode_def Let_def)
lemma handleCoinCollected_absent:
  "coinMap (coinState a) i = None \<Longrightarrow> coinState (handleCoinCollected i ty a) = coinState a"
  by (simp add: handleCoinCollected_def Let_def)

text \<open>
  C4. When the id of an event is not a key of the registry, the combine,
  split, transmute and explode handlers return the application state unchanged
  (registry, score, cash, bonus and all), and the collect handler leaves the registry
  unchanged.
\<close>

theorem absent_id_skipped:
  "(coinMap (coinState a) id1 = None \<or> coinMap (coinState a) id2 = None
      \<longrightarrow> handleCoinInteraction id1 id2 resultType d a = a)
   \<and> (coinMap (coinState a) i = None
      \<longrightarrow> handleSplit i pos d a = a \<and> handleTransmute i a = a \<and> handleExplode i a = a
        \<and> coinState (handleCoinCollected i ty a) = coinState a)"
  using handleCoinInteraction_absent handleSplit_absent handleTransmute_absent
    handleExplode_absent handleCoinCollected_absent by blast

theorem absent_id_skipped_witness:
  "handleCoinInteraction ''9'' ''zz'' TREE (sampleDraw ''r'') sampleApp = sampleApp
   \<and> handleSplit ''zz'' (0, 1, 0) (sampleDraw ''r'') sampleApp = sampleApp
   \<and> handleTransmute ''zz'' sampleApp = sampleApp
   \<and> handleExplode ''zz'' sampleApp = sampleApp
   \<and> coinState (handleCoinCollected ''zz'' STANDARD sampleApp) = coinState sampleApp"
proof -
  have "coinMap (coinState sampleApp) ''zz'' = None"
    by (simp add: sampleApp_def initialApp_def)
  then show ?thesis
    using absent_id_skipped[of sampleApp "''9''" "''zz''" TREE "sampleDraw ''r''" "''zz''"
        "(0, 1, 0)" STANDARD]
    by simp
qed

lemma handleSplit_flagged:
  "coinMap (coinState a) i = Some c \<Longrightarrow> hasSplit c = Some True \<Longrightarrow> handleSplit i pos d a = a"
  by (simp add: handleSplit_def Let_def)

lemma handleSplit_fresh_flag:
  assumes "coinMap (coinState a) i = Some c" "hasSplit c \<noteq> Some True"
  shows "\<exists>c'. coinMap (coinState (handleSplit i pos d a)) i = Some c' \<and> hasSplit c' = Some True"
  using assms by (auto simp: handleSplit_def Let_def split: prod.splits)

lemma handleSplit_clone:
  assumes "coinMap (coinState a) i = Some c" "hasSplit c \<noteq> Some True"
  shows "coinMap (coinState (handleSplit i pos d a)) (''clone-'' @ rnd_id d) =
           Some \<lparr>coin_id = ''clone-'' @ rnd_id d, coin_type = SPLITTER,
                 position = (fst pos, fst (snd pos) + 1, snd (snd pos)),
                 rotation = (0, rnd_rot d * pi * 2, 0),
                 hasSplit = Some True, isActive = None\<rparr>
       \<and> coinOrder (coinState (handleSplit i pos d a))
           = coinOrder (coinState a) @ [''clone-'' @ rnd_id d]"
  using assms by (auto simp: handleSplit_def Let_def split: prod.splits)

lemma handleSplit_length:
  "length (coinOrder (coinState (handleSplit i pos d a))) \<le> Suc (length (coinOrder (coinState a)))"
  by (auto simp: handleSplit_def Let_def split: option.splits prod.splits)

lemma splitEvents_stable:
  assumes "\<And>pos d. handleSplit i pos d a = a"
  shows "splitEvents i evs a = a"
  using assms by (induction evs) (simp_all add: splitEvents_def)

lemma splitEvents_first:
  "splitEvents i (ev # evs) a = handleSplit i (fst ev) (snd ev) a"
proof -
  let ?a1 = "handleSplit i (fst ev) (snd ev) a"
  have "\<And>pos d. handleSplit i pos d ?a1 = ?a1"
  proof -
    fix pos d
    show "handleSplit i pos d ?a1 = ?a1"
    proof (cases "coinMap (coinState a) i")
      case None
      then show ?thesis by (simp add: handleSplit_absent)
    next
      case (Some c)
      show ?thesis
      proof (cases "hasSplit c = Some True")
        case True
        with Some show ?thesis by (simp add: handleSplit_flagged)
      next
        case False
        from handleSplit_fresh_flag[OF Some False, of pos d]
        obtain c' where "coinMap (coinState ?a1) i = Some c'" "hasSplit c' = Some True"
          using handleSplit_fresh_flag[OF Some False] by blast
        then show ?thesis by (rule handleSplit_flagged)
      qed
    qed
  qed
  then have "splitEvents i evs ?a1 = ?a1" by (rule splitEvents_stable)
  then show ?thesis by (simp add: splitEvents_def)
qed

lemma handleCollision_flagged:
  "hasSplit coin = Some True \<Longrightarrow> splits (handleCollision world payload coin st) = splits st"
  by (auto simp: handleCollision_def Let_def queueInteraction_def queueTransmute_def
      triggerExplosion_def queueExplosion_def split: option.splits prod.splits)

text \<open>
  C6. Split events that target one id: a sequence of them does what its first event
  alone does, so the registry grows by at most one entry however often the contact fires;
  when the target is flagged \<open>hasSplit\<close> the sequence changes nothing, and the reducer
  queues no split for a coin it sees flagged. The clone a split inserts is a SPLITTER whose
  \<open>hasSplit\<close> is true from the start, and split events that target the clone change nothing.
\<close>

theorem splitter_clones_once:
  "splitEvents i (ev # evs) a = handleSplit i (fst ev) (snd ev) a
   \<and> length (coinOrder (coinState (splitEvents i evs a))) \<le> Suc (length (coinOrder (coinState a)))
   \<and> (coinMap (coinState a) i = Some c \<and> hasSplit c = Some True \<longrightarrow> splitEvents i evs a = a)
   \<and> (hasSplit coin = Some True \<longrightarrow>
        splits (handleCollision world payload coin st) = splits st)
   \<and> (coinMap (coinState a) i = Some c \<and> hasSplit c \<noteq> Some True \<longrightarrow>
        (\<exists>clone. coinMap (coinState (handleSplit i pos d a)) (''clone-'' @ rnd_id d) = Some clone
            \<and> hasSplit clone = Some True \<and> coin_type clone = SPLITTER)
        \<and> coinOrder (coinState (handleSplit i pos d a))
             = coinOrder (coinState a) @ [''clone-'' @ rnd_id d]
        \<and> splitEvents (''clone-'' @ rnd_id d) evs' (handleSplit i pos d a) = handleSplit i pos d a)"
proof (intro conjI impI)
  show "splitEvents i (ev # evs) a = handleSplit i (fst ev) (snd ev) a"
    by (rule splitEvents_first)
next
  show "length (coinOrder (coinState (splitEvents i evs a))) \<le> Suc (length (coinOrder (coinState a)))"
  proof (cases evs)
    case Nil
    then show ?thesis by (simp add: splitEvents_def)
  next
    case (Cons ev rest)
    then show ?thesis by (simp add: splitEvents_first handleSplit_length)
  qed
next
  assume "coinMap (coinState a) i = Some c \<and> hasSplit c = Some True"
  then have "\<And>pos d. handleSplit i pos d a = a" by (simp add: handleSplit_flagged)
  then show "splitEvents i evs a = a" by (rule splitEvents_stable)
next
  assume "hasSplit coin = Some True"
  then show "splits (handleCollision world payload coin st) = splits st"
    by (rule handleCollision_flagged)
next
  assume p: "coinMap (coinState a) i = Some c \<and> hasSplit c \<noteq> Some True"
  then have c: "coinMap (coinState a) i = Some c" and u: "hasSplit c \<noteq> Some True" by simp_all
  note cl = handleSplit_clone[OF c u, of pos d]
  from cl show "\<exists>clone. coinMap (coinState (handleSplit i pos d a)) (''clone-'' @ rnd_id d) = Some clone
            \<and> hasSplit clone = Some True \<and> coin_type clone = SPLITTER"
    by simp
  from cl show "coinOrder (coinState (handleSplit i pos d a))
             = coinOrder (coinState a) @ [''clone-'' @ rnd_id d]" by simp
  from cl have "\<And>pos' d'. handleSplit (''clone-'' @ rnd_id d) pos' d' (handleSplit i pos d a)
      = handleSplit i pos d a"
    by (intro handleSplit_flagged[where c = "\<lparr>coin_id = ''clone-'' @ rnd_id d, coin_type = SPLITTER,
                 position = (fst pos, fst (snd pos) + 1, snd (snd pos)),
                 rotation = (0, rnd_rot d * pi * 2, 0),
                 hasSplit = Some True, isActive = None\<rparr>"]) simp_all
  then show "splitEvents (''clone-'' @ rnd_id d) evs' (handleSplit i pos d a) = handleSplit i pos d a"
    by (rule splitEvents_stable)
qed

section \<open>What holds of the game state in every run\<close>

lemma COIN_CONFIG_score_ge: "50 \<le> di_score (COIN_CONFIG ty)"
  by (cases ty) simp_all

lemma collect_gain_pos:
  assumes "1 \<le> bl"
  shows "0 < \<lfloor>fl (fl (di_score (COIN_CONFIG ty) * js_pow 1.5 lvl)
               * fl (1 + fl (fl (1 / 10) * (real bl - 1))))\<rfloor>"
proof -
  have "(1::real) \<le> 1.5 ^ lvl" by (rule one_le_power) simp
  then have p: "1 \<le> js_pow 1.5 lvl" unfolding js_pow_def by (rule fl_ge_one)
  have "1 * 1 \<le> di_score (COIN_CONFIG ty) * js_pow 1.5 lvl"
    using COIN_CONFIG_score_ge[of ty] p by (intro mult_mono) simp_all
  then have a: "1 \<le> fl (di_score (COIN_CONFIG ty) * js_pow 1.5 lvl)"
    by (intro fl_ge_one) simp
  have "(0::real) \<le> fl (1 / 10)" by (rule fl_nonneg) simp
  then have "0 \<le> fl (1 / 10) * (real bl - 1)" using assms by simp
  then have "0 \<le> fl (fl (1 / 10) * (real bl - 1))" by (rule fl_nonneg)
  then have b: "1 \<le> fl (1 + fl (fl (1 / 10) * (real bl - 1)))"
    by (intro fl_ge_one) simp
  have "1 * 1 \<le> fl (di_score (COIN_CONFIG ty) * js_pow 1.5 lvl)
               * fl (1 + fl (fl (1 / 10) * (real bl - 1)))"
    using a b by (intro mult_mono) simp_all
  then have "1 \<le> fl (fl (di_score (COIN_CONFIG ty) * js_pow 1.5 lvl)
               * fl (1 + fl (fl (1 / 10) * (real bl - 1))))"
    by (intro fl_ge_one) simp
  then show ?thesis by linarith
qed

lemma findIndex_Some: "findIndex P xs = Some n \<Longrightarrow> n < length xs \<and> P (xs ! n)"
  by (induction xs arbitrary: n) (auto split: if_splits)

lemma findIndex_None: "findIndex P xs = None \<Longrightarrow> find P xs = None"
  by (induction xs) (auto split: if_splits)

lemma findIndex_find:
  "findIndex P xs = Some n \<Longrightarrow> find P xs = Some (xs ! n) \<and> (\<forall>k < n. \<not> P (xs ! k))"
proof (induction xs arbitrary: n)
  case Nil
  then show ?case by simp
next
  case (Cons x xs)
  show ?case
  proof (cases "P x")
    case True
    with Cons.prems show ?thesis by simp
  next
    case False
    with Cons.prems obtain m where m: "findIndex P xs = Some m" "n = Suc m" by auto
    from Cons.IH[OF m(1)] False m(2) show ?thesis
      by (auto simp: less_Suc_eq_0_disj)
  qed
qed

lemma handleCoinCollected_gameState:
  "gameState (handleCoinCollected i ty a) =
     (gameState a)\<lparr>score := score (gameState a) + scoreGain ty (gameStateRef a),
                    cash := cash (gameState a) + di_value (COIN_CONFIG ty),
                    bonus := (if 100 \<le> bonus (gameStateRef a) + 4 then 0
                              else bonus (gameStateRef a) + 4),
                    bonusLevel := (if 100 \<le> bonus (gameStateRef a) + 4
                                   then bonusLevel (gameStateRef a) + 1
                                   else bonusLevel (gameStateRef a))\<rparr>"
  by (simp add: handleCoinCollected_def scoreGain_def Let_def)

lemma scoreGain_pos:
  assumes "1 \<le> bonusLevel state"
  shows "0 < scoreGain ty state"
  unfolding scoreGain_def
  using collect_gain_pos[OF assms, of ty "artifactLevel ''mult'' state"] by simp

text \<open>Without artifacts and at bonus level 1 the credit is the coin's score as configured.\<close>

lemma scoreGain_plain:
  assumes "artifacts st = []" "bonusLevel st = 1"
  shows "scoreGain STANDARD st = 100" "scoreGain DIAMOND st = 10000"
  using assms
  by (simp_all add: scoreGain_def artifactLevel_def js_pow_def fl_0 fl_1 fl_100 fl_10000)


lemma game_inv_collect:
  assumes "game_inv (gameState a)" "game_inv (gameStateRef a)"
  shows "game_inv (gameState (handleCoinCollected i ty a))"
proof -
  have pos: "0 < scoreGain ty (gameStateRef a)"
    using assms(2) by (intro scoreGain_pos) (simp add: game_inv_def)
  show ?thesis
    unfolding handleCoinCollected_gameState
    using assms pos by (auto simp: game_inv_def)
qed

lemma game_inv_decay:
  assumes "game_inv (gameState a)"
  shows "game_inv (gameState (decayInterval a))"
  using assms unfolding game_inv_def decayInterval_def Let_def by (auto simp: max_def)

lemma game_inv_buy:
  assumes "game_inv (gameState a)"
  shows "game_inv (gameState (buyItem item cost a))"
proof (cases "cash (gameStateRef a) \<ge> cost")
  case False
  then show ?thesis using assms by (simp add: buyItem_def)
next
  case True
  show ?thesis
  proof (cases item)
    case (CoinItem ty)
    then show ?thesis using assms True by (simp add: buyItem_def game_inv_def Let_def)
  next
    case (ArtifactItem i)
    show ?thesis
    proof (cases "findIndex (\<lambda>x. art_id x = i) (artifacts (gameState a))")
      case None
      show ?thesis
      proof (cases "find (\<lambda>x. art_id x = i) SHOP_ARTIFACTS")
        case None' : None
        then show ?thesis using assms True ArtifactItem None
          by (simp add: buyItem_def game_inv_def Let_def)
      next
        case (Some b)
        then have "b \<in> set SHOP_ARTIFACTS" by (auto simp: find_Some_iff)
        then have "art_id b \<in> catalogIds" by (simp add: catalogIds_def)
        then show ?thesis using assms True ArtifactItem None Some
          by (simp add: buyItem_def game_inv_def Let_def)
      qed
    next
      case (Some n)
      from findIndex_Some[OF Some] have n: "n < length (artifacts (gameState a))" by simp
      have "art_id ` set ((artifacts (gameState a))[n :=
              (artifacts (gameState a) ! n)\<lparr>level := level (artifacts (gameState a) ! n) + 1\<rparr>])
            \<subseteq> art_id ` set (artifacts (gameState a))"
        using n by (auto simp: set_conv_nth nth_list_update)
      then show ?thesis using assms True ArtifactItem Some
        by (auto simp: buyItem_def game_inv_def Let_def)
    qed
  qed
qed

lemma game_inv_initial: "game_inv INITIAL_STATE" "game_inv (INITIAL_STATE\<lparr>phase := PLAYING\<rparr>)"
  by (simp_all add: game_inv_def INITIAL_STATE_def)

lemma reachable_game_inv:
  "reachable md a \<Longrightarrow> game_inv (gameState a) \<and> game_inv (gameStateRef a)"
proof (induction rule: reachable.induct)
  case r_init
  then show ?case by (simp add: initialApp_def game_inv_initial)
next
  case (r_render a)
  then show ?case by (simp add: render_def)
next
  case (r_tab a b)
  then show ?case by simp
next
  case (r_tick a dt)
  then show ?case by (simp add: handlePhysicsTick_def)
next
  case (r_decay a)
  then have "gameStateRef (decayInterval a) = gameStateRef a"
    by (simp add: decayInterval_def Let_def)
  with r_decay show ?case by (simp add: game_inv_decay)
next
  case (r_start a rnd)
  then show ?case by (simp add: startGame_def Let_def game_inv_initial)
next
  case (r_drop a d ty)
  then show ?case by (simp add: handleCoinDrop_def spawnCoin_def Let_def game_inv_def)
next
  case (r_jackpot a bl rest rnd)
  then show ?case by (simp add: triggerJackpot_def Let_def)
next
  case (r_split a i pos d)
  then show ?case by (simp add: handleSplit_def Let_def split: option.splits prod.splits)
next
  case (r_explode a i)
  then show ?case by (simp add: handleExplode_def Let_def)
next
  case (r_transmute a i)
  then show ?case by (simp add: handleTransmute_def Let_def split: option.splits)
next
  case (r_interaction a id1 id2 ty d)
  then show ?case by (simp add: handleCoinInteraction_def Let_def split: option.splits prod.splits)
next
  case (r_collected a i ty)
  then have "gameStateRef (handleCoinCollected i ty a) = gameStateRef a"
    by (simp add: handleCoinCollected_def Let_def)
  with r_collected show ?case by (simp add: game_inv_collect)
next
  case (r_roundEnd a)
  then show ?case by (simp add: handleRoundEnd_def Let_def game_inv_def)
next
  case (r_nextRound a)
  then show ?case by (simp add: nextRound_def Let_def game_inv_def)
next
  case (r_buy a item cost)
  then have "gameStateRef (buyItem item cost a) = gameStateRef a"
    by (simp add: buyItem_def Let_def)
  with r_buy show ?case by (simp add: game_inv_buy)
next
  case (r_reboot a)
  then show ?case by (simp add: reboot_def game_inv_initial)
qed

section \<open>Artifact prices and purchases\<close>

lemma find_snoc: "find P (xs @ [y]) = (case find P xs of None \<Rightarrow> (if P y then Some y else None) | Some x \<Rightarrow> Some x)"
  by (induction xs) auto

lemma find_update_at_index:
  "findIndex P xs = Some n \<Longrightarrow> P y \<Longrightarrow> find P (xs[n := y]) = Some y"
proof (induction xs arbitrary: n)
  case Nil
  then show ?case by simp
next
  case (Cons x xs)
  show ?case
  proof (cases "P x")
    case True
    with Cons.prems show ?thesis by simp
  next
    case False
    with Cons.prems obtain m where m: "findIndex P xs = Some m" "n = Suc m" by auto
    from Cons.IH[OF m(1) Cons.prems(2)] False m(2) show ?thesis by simp
  qed
qed

lemma findIndex_None_iff: "findIndex P xs = None \<longleftrightarrow> (\<forall>x \<in> set xs. \<not> P x)"
  by (induction xs) auto

lemma catalog_cases:
  assumes "b \<in> set SHOP_ARTIFACTS"
  shows "b = SHOP_ARTIFACTS ! 0 \<or> b = SHOP_ARTIFACTS ! 1 \<or> b = SHOP_ARTIFACTS ! 2"
  using assms by (simp add: SHOP_ARTIFACTS_def)

lemma catalog_find:
  assumes "b \<in> set SHOP_ARTIFACTS"
  shows "find (\<lambda>x. art_id x = art_id b) SHOP_ARTIFACTS = Some b"
  using catalog_cases[OF assms] by (elim disjE) (simp_all add: SHOP_ARTIFACTS_def)

lemma catalog_cost:
  assumes "b \<in> set SHOP_ARTIFACTS"
  shows "art_cost b = 300 \<or> art_cost b = 500 \<or> art_cost b = 800"
  using catalog_cases[OF assms] by (elim disjE) (simp_all add: SHOP_ARTIFACTS_def)

lemma buyItem_artifact_cash:
  assumes "cost \<le> cash (gameStateRef a)"
  shows "cash (gameState (buyItem (ArtifactItem i) cost a)) = cash (gameState a) - cost"
  using assms by (simp add: buyItem_def Let_def split: option.splits)

lemma buyItem_artifact_level:
  assumes cat: "b \<in> set SHOP_ARTIFACTS" and ok: "cost \<le> cash (gameStateRef a)"
  shows "artifactLevel (art_id b) (gameState (buyItem (ArtifactItem (art_id b)) cost a))
           = artifactLevel (art_id b) (gameState a) + 1"
proof (cases "findIndex (\<lambda>x. art_id x = art_id b) (artifacts (gameState a))")
  case None
  then have nf: "find (\<lambda>x. art_id x = art_id b) (artifacts (gameState a)) = None"
    by (rule findIndex_None)
  show ?thesis
    using ok None nf catalog_find[OF cat]
    by (simp add: buyItem_def Let_def artifactLevel_def find_snoc)
next
  case (Some n)
  let ?xs = "artifacts (gameState a)"
  let ?y = "(?xs ! n)\<lparr>level := level (?xs ! n) + 1\<rparr>"
  from findIndex_find[OF Some] have f: "find (\<lambda>x. art_id x = art_id b) ?xs = Some (?xs ! n)"
    by simp
  from findIndex_Some[OF Some] have "art_id ?y = art_id b" by simp
  from find_update_at_index[OF Some, of ?y] this
  have "find (\<lambda>x. art_id x = art_id b) (?xs[n := ?y]) = Some ?y" by simp
  then show ?thesis
    using ok Some f by (simp add: buyItem_def Let_def artifactLevel_def)
qed

lemma buyArtifactClick_effect:
  assumes cat: "b \<in> set SHOP_ARTIFACTS"
    and ok: "currentCost b (gameStateRef a) \<le> cash (gameStateRef a)"
  shows "cash (gameState (buyArtifactClick b a))
           = cash (gameState a) - currentCost b (gameStateRef a)"
    and "artifactLevel (art_id b) (gameState (buyArtifactClick b a))
           = artifactLevel (art_id b) (gameState a) + 1"
  using ok buyItem_artifact_cash[OF ok] buyItem_artifact_level[OF cat ok]
  by (simp_all add: buyArtifactClick_def Let_def)

lemma render_simps:
  "gameStateRef (render a) = gameState a" "gameState (render a) = gameState a"
  by (simp_all add: render_def)

text \<open>
  C9. For an artifact \<open>b\<close> of the catalog: the price shown at owned level \<open>L\<close> is
  \<open>floor (baseCost * 1.5 ^ L)\<close>; a click that the cash covers takes exactly the shown price
  from the cash and raises the level of \<open>b\<close> by one; and three purchases in a row from
  level 0, each followed by a render, cost \<open>baseCost\<close>, \<open>floor (baseCost * 1.5)\<close> and
  \<open>floor (baseCost * 2.25)\<close> and end at level 3.
\<close>

theorem artifact_price_and_purchase:
  assumes cat: "b \<in> set SHOP_ARTIFACTS"
  shows "(artifactLevel (art_id b) g = L \<longrightarrow> currentCost b g = of_int \<lfloor>art_cost b * 1.5 ^ L\<rfloor>)
       \<and> (currentCost b (gameStateRef a) \<le> cash (gameStateRef a) \<longrightarrow>
            cash (gameState (buyArtifactClick b a))
              = cash (gameState a) - currentCost b (gameStateRef a)
          \<and> artifactLevel (art_id b) (gameState (buyArtifactClick b a))
              = artifactLevel (art_id b) (gameState a) + 1)
       \<and> (gameStateRef a = gameState a \<and> artifactLevel (art_id b) (gameState a) = 0
          \<and> art_cost b + of_int \<lfloor>art_cost b * 1.5\<rfloor> + of_int \<lfloor>art_cost b * 2.25\<rfloor>
               \<le> cash (gameState a) \<longrightarrow>
            cash (gameState (render (buyArtifactClick b a)))
              = cash (gameState a) - art_cost b
          \<and> cash (gameState (render (buyArtifactClick b (render (buyArtifactClick b a)))))
              = cash (gameState (render (buyArtifactClick b a))) - of_int \<lfloor>art_cost b * 1.5\<rfloor>
          \<and> cash (gameState (render (buyArtifactClick b
                  (render (buyArtifactClick b (render (buyArtifactClick b a)))))))
              = cash (gameState (render (buyArtifactClick b (render (buyArtifactClick b a)))))
                - of_int \<lfloor>art_cost b * 2.25\<rfloor>
          \<and> artifactLevel (art_id b) (gameState (render (buyArtifactClick b
                  (render (buyArtifactClick b (render (buyArtifactClick b a))))))) = 3)"
proof (intro conjI impI)
  assume "artifactLevel (art_id b) g = L"
  then show "currentCost b g = of_int \<lfloor>art_cost b * 1.5 ^ L\<rfloor>"
    by (simp add: currentCost_def Let_def)
next
  assume ok: "currentCost b (gameStateRef a) \<le> cash (gameStateRef a)"
  show "cash (gameState (buyArtifactClick b a))
              = cash (gameState a) - currentCost b (gameStateRef a)"
    by (rule buyArtifactClick_effect(1)[OF cat ok])
  show "artifactLevel (art_id b) (gameState (buyArtifactClick b a))
              = artifactLevel (art_id b) (gameState a) + 1"
    by (rule buyArtifactClick_effect(2)[OF cat ok])
next
  assume h: "gameStateRef a = gameState a \<and> artifactLevel (art_id b) (gameState a) = 0
          \<and> art_cost b + of_int \<lfloor>art_cost b * 1.5\<rfloor> + of_int \<lfloor>art_cost b * 2.25\<rfloor>
               \<le> cash (gameState a)"
  let ?a1 = "render (buyArtifactClick b a)"
  let ?a2 = "render (buyArtifactClick b ?a1)"
  let ?a3 = "render (buyArtifactClick b ?a2)"
  note c = catalog_cost[OF cat]
  have p0: "currentCost b (gameStateRef a) = art_cost b"
    using h c by (auto simp: currentCost_def Let_def)
  have ok0: "currentCost b (gameStateRef a) \<le> cash (gameStateRef a)"
    using h c unfolding p0 by auto
  note e0 = buyArtifactClick_effect[OF cat ok0]
  have l1: "artifactLevel (art_id b) (gameState ?a1) = 1"
    and c1: "cash (gameState ?a1) = cash (gameState a) - art_cost b"
    using e0 h p0 by (simp_all add: render_simps)
  have p1: "currentCost b (gameStateRef ?a1) = of_int \<lfloor>art_cost b * 1.5\<rfloor>"
    using l1 by (simp add: currentCost_def Let_def render_simps)
  have ok1: "currentCost b (gameStateRef ?a1) \<le> cash (gameStateRef ?a1)"
    unfolding p1 using h c c1 by (auto simp: render_simps)
  note e1 = buyArtifactClick_effect[OF cat ok1]
  have l2: "artifactLevel (art_id b) (gameState ?a2) = 2"
    and c2: "cash (gameState ?a2) = cash (gameState ?a1) - of_int \<lfloor>art_cost b * 1.5\<rfloor>"
    using e1 l1 p1 by (simp_all add: render_simps)
  have p2: "currentCost b (gameStateRef ?a2) = of_int \<lfloor>art_cost b * 2.25\<rfloor>"
    using l2 c by (auto simp: currentCost_def Let_def render_simps power2_eq_square)
  have ok2: "currentCost b (gameStateRef ?a2) \<le> cash (gameStateRef ?a2)"
    unfolding p2 using h c c1 c2 by (auto simp: render_simps)
  note e2 = buyArtifactClick_effect[OF cat ok2]
  show "cash (gameState ?a1) = cash (gameState a) - art_cost b" by (rule c1)
  show "cash (gameState ?a2) = cash (gameState ?a1) - of_int \<lfloor>art_cost b * 1.5\<rfloor>" by (rule c2)
  show "cash (gameState ?a3) = cash (gameState ?a2) - of_int \<lfloor>art_cost b * 2.25\<rfloor>"
    using e2(1) p2 by (simp add: render_simps)
  show "artifactLevel (art_id b) (gameState ?a3) = 3"
    using e2(2) l2 by (simp add: render_simps)
qed

section \<open>Sample runs\<close>

lemma collectAndRender_reachable:
  "reachable md a \<Longrightarrow> reachable md (collectAndRender i ty a)"
  unfolding collectAndRender_def by (intro r_render r_collected)

lemma collects_reachable:
  "reachable md a \<Longrightarrow> reachable md ((collectAndRender i ty ^^ n) a)"
  by (induction n) (simp_all add: collectAndRender_reachable)

lemma newGame_reachable: "reachable md newGame"
  unfolding newGame_def
  by (intro r_render r_start r_init) (simp add: initialApp_def INITIAL_STATE_def)

lemma newGame_state:
  "gameState newGame = INITIAL_STATE\<lparr>phase := PLAYING\<rparr>"
  "gameStateRef newGame = INITIAL_STATE\<lparr>phase := PLAYING\<rparr>"
  by (simp_all add: newGame_def render_def startGame_def Let_def)

lemma collectAndRender_state:
  "gameState (collectAndRender i ty a) =
     (gameState a)\<lparr>score := score (gameState a) + scoreGain ty (gameStateRef a),
                    cash := cash (gameState a) + di_value (COIN_CONFIG ty),
                    bonus := (if 100 \<le> bonus (gameStateRef a) + 4 then 0
                              else bonus (gameStateRef a) + 4),
                    bonusLevel := (if 100 \<le> bonus (gameStateRef a) + 4
                                   then bonusLevel (gameStateRef a) + 1
                                   else bonusLevel (gameStateRef a))\<rparr>"
  "gameStateRef (collectAndRender i ty a) = gameState (collectAndRender i ty a)"
  by (simp_all add: collectAndRender_def render_def handleCoinCollected_gameState)

lemma collects_state:
  "n \<le> 24 \<Longrightarrow>
   gameState ((collectAndRender i STANDARD ^^ n) newGame)
     = INITIAL_STATE\<lparr>phase := PLAYING, score := 100 * real n, cash := 100 + 10 * real n,
                      bonus := 4 * real n\<rparr>
   \<and> gameStateRef ((collectAndRender i STANDARD ^^ n) newGame)
     = gameState ((collectAndRender i STANDARD ^^ n) newGame)"
proof (induction n)
  case 0
  then show ?case by (simp add: newGame_state INITIAL_STATE_def)
next
  case (Suc n)
  let ?s = "(collectAndRender i STANDARD ^^ n) newGame"
  from Suc.prems have n: "n \<le> 24" "real n < 24" by simp_all
  from Suc.IH[OF n(1)]
  have g: "gameState ?s = INITIAL_STATE\<lparr>phase := PLAYING, score := 100 * real n,
             cash := 100 + 10 * real n, bonus := 4 * real n\<rparr>"
    and r: "gameStateRef ?s = gameState ?s" by simp_all
  show ?case
    using n(2)
    by (simp add: collectAndRender_state r g scoreGain_plain INITIAL_STATE_def algebra_simps)
qed

lemma fullMeterApp_reachable: "reachable md fullMeterApp"
  unfolding fullMeterApp_def
  by (intro collects_reachable newGame_reachable)

lemma fullMeterApp_state:
  "gameState fullMeterApp
     = INITIAL_STATE\<lparr>phase := PLAYING, score := 2400, cash := 340, bonus := 96\<rparr>"
  "gameStateRef fullMeterApp = gameState fullMeterApp"
  using collects_state[of 24 "''x''"]
  unfolding fullMeterApp_def by simp_all

lemma meter92App_reachable: "reachable md meter92App"
  unfolding meter92App_def
  by (intro collects_reachable newGame_reachable)

lemma meter92App_state:
  "gameState meter92App
     = INITIAL_STATE\<lparr>phase := PLAYING, score := 2300, cash := 330, bonus := 92\<rparr>"
  "gameStateRef meter92App = gameState meter92App"
  using collects_state[of 23 "''x''"]
  unfolding meter92App_def by simp_all

section \<open>The bonus meter\<close>

text \<open>
  In every reachable state the bonus lies between 0 and 100, a firing of the decay
  interval leaves it at or above 0 and never raises it, and a collection whose handler
  finds the bonus it reads at 96 or more sets the bonus to 0 and the bonus level to the
  level it reads plus one.
\<close>

lemma reachable_bonus_bounds:
  assumes r: "reachable md a"
  shows "0 \<le> bonus (gameState a) \<and> bonus (gameState a) \<le> 100
       \<and> (100 \<le> bonus (gameStateRef a) + 4 \<longrightarrow>
            bonus (gameState (handleCoinCollected i ty a)) = 0
          \<and> bonusLevel (gameState (handleCoinCollected i ty a))
              = bonusLevel (gameStateRef a) + 1)
       \<and> 0 \<le> bonus (gameState (decayInterval a))
       \<and> bonus (gameState (decayInterval a)) \<le> bonus (gameState a)"
proof -
  from reachable_game_inv[OF r] have g: "game_inv (gameState a)" by simp
  from game_inv_decay[OF g] have d: "0 \<le> bonus (gameState (decayInterval a))"
    by (simp add: game_inv_def)
  have m: "bonus (gameState (decayInterval a)) \<le> bonus (gameState a)"
    by (simp add: decayInterval_def Let_def max_def)
  show ?thesis
    using g d m by (simp add: game_inv_def handleCoinCollected_gameState)
qed

lemma handleCoinCollected_ref:
  "gameStateRef (handleCoinCollected i ty a) = gameStateRef a"
  by (simp add: handleCoinCollected_def Let_def)

lemma handleCoinCollected_timers:
  "jackpotTimers (handleCoinCollected i ty a) =
     (if 100 \<le> bonus (gameStateRef a) + 4
      then jackpotTimers a @ [bonusLevel (gameStateRef a) + 1] else jackpotTimers a)"
  by (simp add: handleCoinCollected_def Let_def)

lemma collectAndRender_timers:
  "jackpotTimers (collectAndRender i ty a) =
     (if 100 \<le> bonus (gameStateRef a) + 4
      then jackpotTimers a @ [bonusLevel (gameStateRef a) + 1] else jackpotTimers a)"
  by (simp add: collectAndRender_def render_def handleCoinCollected_timers)

lemma collects_timers:
  "n \<le> 24 \<Longrightarrow> jackpotTimers ((collectAndRender i STANDARD ^^ n) newGame) = []"
proof (induction n)
  case 0
  then show ?case
    by (simp add: newGame_def render_def startGame_def Let_def initialApp_def)
next
  case (Suc n)
  then have n: "n \<le> 24" "real n < 24" by simp_all
  from collects_state[OF n(1), of i] Suc.IH[OF n(1)] n(2) show ?case
    by (simp add: collectAndRender_timers INITIAL_STATE_def)
qed

text \<open>
  C3. Two coins reach the collection sensor in one tick, so that no render comes between
  the two calls of \<open>handleCoinCollected\<close> and both read the same state snapshot. At bonus
  96 and level 1 the first call fills the meter (bonus 0, level 2); the second still reads
  96, decides once more that the meter is full, and writes level 2 again: a collection
  that brings the bonus it sees to 100 does not raise the level, and the jackpot is
  scheduled twice. At bonus 92 the first call gives 96 and the second, reading 92, gives
  96 again: the 25th coin since the meter was empty neither resets the bonus nor raises
  the level.
\<close>

theorem bonus_two_collections_one_tick:
  "reachable sampleDimensions
     (handleCoinCollected ''z'' STANDARD (handleCoinCollected ''y'' STANDARD fullMeterApp))
   \<and> bonus (gameState fullMeterApp) = 96 \<and> bonusLevel (gameState fullMeterApp) = 1
   \<and> gameStateRef fullMeterApp = gameState fullMeterApp
   \<and> bonus (gameState (handleCoinCollected ''y'' STANDARD fullMeterApp)) = 0
   \<and> bonusLevel (gameState (handleCoinCollected ''y'' STANDARD fullMeterApp)) = 2
   \<and> bonus (gameStateRef (handleCoinCollected ''y'' STANDARD fullMeterApp)) = 96
   \<and> bonus (gameState (handleCoinCollected ''z'' STANDARD
        (handleCoinCollected ''y'' STANDARD fullMeterApp))) = 0
   \<and> bonusLevel (gameState (handleCoinCollected ''z'' STANDARD
        (handleCoinCollected ''y'' STANDARD fullMeterApp))) = 2
   \<and> jackpotTimers (handleCoinCollected ''z'' STANDARD
        (handleCoinCollected ''y'' STANDARD fullMeterApp)) = [2, 2]
   \<and> reachable sampleDimensions
        (handleCoinCollected ''z'' STANDARD (handleCoinCollected ''y'' STANDARD meter92App))
   \<and> bonus (gameState meter92App) = 92 \<and> bonusLevel (gameState meter92App) = 1
   \<and> bonus (gameState (handleCoinCollected ''y'' STANDARD meter92App)) = 96
   \<and> bonus (gameState (handleCoinCollected ''z'' STANDARD
        (handleCoinCollected ''y'' STANDARD meter92App))) = 96
   \<and> bonusLevel (gameState (handleCoinCollected ''z'' STANDARD
        (handleCoinCollected ''y'' STANDARD meter92App))) = 1
   \<and> jackpotTimers (handleCoinCollected ''z'' STANDARD
        (handleCoinCollected ''y'' STANDARD meter92App)) = []"
proof -
  have r1: "reachable sampleDimensions
     (handleCoinCollected ''z'' STANDARD (handleCoinCollected ''y'' STANDARD fullMeterApp))"
    by (intro r_collected fullMeterApp_reachable)
  have r2: "reachable sampleDimensions
     (handleCoinCollected ''z'' STANDARD (handleCoinCollected ''y'' STANDARD meter92App))"
    by (intro r_collected meter92App_reachable)
  have t1: "jackpotTimers fullMeterApp = []" "jackpotTimers meter92App = []"
    using collects_timers[of 24 "''x''"] collects_timers[of 23 "''x''"]
    by (simp_all add: fullMeterApp_def meter92App_def)
  show ?thesis
    using r1 r2 t1
    by (simp add: handleCoinCollected_gameState handleCoinCollected_ref
        handleCoinCollected_timers fullMeterApp_state meter92App_state INITIAL_STATE_def)
qed

section \<open>What a collection credits\<close>





















section \<open>An artifact id outside the catalog\<close>

text \<open>
  C10. In every reachable state, buying an artifact whose id is not in the catalog, at a
  cost the rendered cash covers, takes the cost from the cash and leaves the list of
  artifacts as it was.
\<close>

theorem unknown_artifact_purchase:
  assumes r: "reachable md a" and unknown: "i \<notin> catalogIds"
    and afford: "cost \<le> cash (gameStateRef a)"
  shows "cash (gameState (buyItem (ArtifactItem i) cost a)) = cash (gameState a) - cost
       \<and> artifacts (gameState (buyItem (ArtifactItem i) cost a)) = artifacts (gameState a)"
proof -
  from reachable_game_inv[OF r] have "art_id ` set (artifacts (gameState a)) \<subseteq> catalogIds"
    by (simp add: game_inv_def)
  with unknown have "\<forall>x \<in> set (artifacts (gameState a)). art_id x \<noteq> i" by auto
  then have n1: "findIndex (\<lambda>x. art_id x = i) (artifacts (gameState a)) = None"
    by (simp add: findIndex_None_iff)
  from unknown have "\<forall>x \<in> set SHOP_ARTIFACTS. art_id x \<noteq> i"
    by (auto simp: catalogIds_def)
  then have n2: "find (\<lambda>x. art_id x = i) SHOP_ARTIFACTS = None"
    by (simp add: find_None_iff)
  show ?thesis using afford n1 n2 by (simp add: buyItem_def Let_def)
qed

lemma shopApp_reachable: "reachable md shopApp"
  unfolding shopApp_def
  by (intro r_render r_roundEnd fullMeterApp_reachable)
     (simp add: fullMeterApp_state INITIAL_STATE_def)

lemma shopApp_state:
  "gameState shopApp = INITIAL_STATE\<lparr>phase := SHOP, cash := 340\<rparr>"
  "gameStateRef shopApp = gameState shopApp"
  by (simp_all add: shopApp_def render_def handleRoundEnd_def Let_def fullMeterApp_state
      INITIAL_STATE_def)

theorem unknown_artifact_purchase_witness:
  "phase (gameState shopApp) = SHOP \<and> cash (gameState shopApp) = 340
   \<and> artifacts (gameState shopApp) = []
   \<and> cash (gameState (buyItem (ArtifactItem ''turbo'') 300 shopApp)) = 40
   \<and> artifacts (gameState (buyItem (ArtifactItem ''turbo'') 300 shopApp)) = []"
proof -
  have u: "''turbo'' \<notin> catalogIds" by (simp add: catalogIds_def SHOP_ARTIFACTS_def)
  have c: "300 \<le> cash (gameStateRef shopApp)" by (simp add: shopApp_state INITIAL_STATE_def)
  show ?thesis
    using unknown_artifact_purchase[OF shopApp_reachable u c]
    by (simp add: shopApp_state INITIAL_STATE_def)
qed

section \<open>Three purchases of the score multiplier\<close>

theorem artifact_price_and_purchase_witness:
  "currentCost (SHOP_ARTIFACTS ! 2) (gameState richShop) = 800
   \<and> cash (gameState (render (buyArtifactClick (SHOP_ARTIFACTS ! 2) richShop))) = 4200
   \<and> cash (gameState (render (buyArtifactClick (SHOP_ARTIFACTS ! 2)
        (render (buyArtifactClick (SHOP_ARTIFACTS ! 2) richShop))))) = 3000
   \<and> cash (gameState (render (buyArtifactClick (SHOP_ARTIFACTS ! 2)
        (render (buyArtifactClick (SHOP_ARTIFACTS ! 2)
          (render (buyArtifactClick (SHOP_ARTIFACTS ! 2) richShop))))))) = 1200
   \<and> artifactLevel ''mult'' (gameState (render (buyArtifactClick (SHOP_ARTIFACTS ! 2)
        (render (buyArtifactClick (SHOP_ARTIFACTS ! 2)
          (render (buyArtifactClick (SHOP_ARTIFACTS ! 2) richShop))))))) = 3"
proof -
  have cat: "SHOP_ARTIFACTS ! 2 \<in> set SHOP_ARTIFACTS" by (simp add: SHOP_ARTIFACTS_def)
  have b: "art_cost (SHOP_ARTIFACTS ! 2) = 800" "art_id (SHOP_ARTIFACTS ! 2) = ''mult''"
    by (simp_all add: SHOP_ARTIFACTS_def)
  have s: "gameStateRef richShop = gameState richShop" "cash (gameState richShop) = 5000"
    "artifacts (gameState richShop) = []"
    by (simp_all add: richShop_def shopApp_state INITIAL_STATE_def)
  have l: "artifactLevel ''mult'' (gameState richShop) = 0"
    by (simp add: artifactLevel_def s)
  show ?thesis
    using artifact_price_and_purchase[OF cat, of "gameState richShop" 0 richShop] b s l
    by simp
qed

section \<open>An explosion with a second body at its centre\<close>

text \<open>
  C5. The explosion resolver at a configuration with a second body exactly at the
  detonation centre: the other body passes the only guard there is (a different handle),
  its distance 0 is below the radius, and the three offsets are divided by that zero
  distance, so the impulse applied to it is not a finite vector. A body at distance 5
  receives the impulse the formula gives.
\<close>

theorem explosion_coincident_body:
  "handle twinBody \<noteq> handle bombBody
   \<and> explosionImpulse bombBody twinBody = Some NonFinite
   \<and> applied (handleCollision [bombBody, twinBody, nearBody] bombContact bombCoin emptyPending)
       = [(2, NonFinite), (3, Impulse (9 / 5, 3 / 2, 12 / 5))]"
  by (simp add: explosionImpulse_def bombBody_def twinBody_def nearBody_def js_div_def
      explosionRadius_def explosionForce_def handleCollision_def bombContact_def bombCoin_def
      activeCollisionCoinTypes_def interactionCoinTypes_def triggerExplosion_def
      queueExplosion_def emptyPending_def set_add_def Let_def)

section \<open>Split and combine events on the sample registry\<close>

theorem splitter_clones_once_witness:
  "coinOrder (coinState (splitEvents ''r''
      [((0, 1, 0), sampleDraw ''9''), ((0, 1, 0), sampleDraw ''29''), ((2, 1, 0), sampleDraw ''4i'')]
      splitterApp)) = [''9'', ''i'', ''r'', ''clone-9'']
   \<and> splitEvents ''clone-9'' [((0, 1, 0), sampleDraw ''r'')]
        (handleSplit ''r'' (0, 1, 0) (sampleDraw ''9'') splitterApp)
       = handleSplit ''r'' (0, 1, 0) (sampleDraw ''9'') splitterApp
   \<and> splitEvents ''r'' [((0, 1, 0), sampleDraw ''29'')]
        (handleSplit ''r'' (0, 1, 0) (sampleDraw ''9'') splitterApp)
       = handleSplit ''r'' (0, 1, 0) (sampleDraw ''9'') splitterApp
   \<and> splits (handleCollision [] pusherContact (splitterCoin\<lparr>hasSplit := Some True\<rparr>) emptyPending)
       = []"
proof -
  let ?a1 = "handleSplit ''r'' (0, 1, 0) (sampleDraw ''9'') splitterApp"
  have c: "coinMap (coinState splitterApp) ''r'' = Some splitterCoin"
    "hasSplit splitterCoin \<noteq> Some True"
    by (simp_all add: splitterApp_def splitterCoin_def)
  have c1: "coinMap (coinState ?a1) ''r'' = Some (splitterCoin\<lparr>hasSplit := Some True\<rparr>)"
    "hasSplit (splitterCoin\<lparr>hasSplit := Some True\<rparr>) = Some True"
    by (simp_all add: handleSplit_def splitterApp_def Let_def sampleDraw_def)
  have o: "coinOrder (coinState splitterApp) = [''9'', ''i'', ''r'']"
    by (simp add: splitterApp_def)
  note t1 = splitter_clones_once[where i = "''r''" and a = splitterApp and c = splitterCoin
      and ev = "((0, 1, 0), sampleDraw ''9'')"
      and evs = "[((0, 1, 0), sampleDraw ''29''), ((2, 1, 0), sampleDraw ''4i'')]"
      and pos = "(0, 1, 0)" and d = "sampleDraw ''9''"
      and evs' = "[((0, 1, 0), sampleDraw ''r'')]"
      and coin = "splitterCoin\<lparr>hasSplit := Some True\<rparr>" and world = "[]"
      and payload = pusherContact and st = emptyPending]
  note t2 = splitter_clones_once[where i = "''r''" and a = ?a1
      and c = "splitterCoin\<lparr>hasSplit := Some True\<rparr>"
      and evs = "[((0, 1, 0), sampleDraw ''29'')]"]
  show ?thesis
    using t1 t2 c c1 o by (simp add: sampleDraw_def emptyPending_def)
qed

theorem combine_event_effect_witness:
  "coinMap (coinState (handleCoinInteraction ''9'' ''i'' TREE (sampleDraw ''r'') sampleApp))
      ''merged-r''
     = Some \<lparr>coin_id = ''merged-r'', coin_type = TREE, position = (1, 1, 2),
             rotation = (0, 0, 0), hasSplit = None, isActive = None\<rparr>
   \<and> coinOrder (coinState (handleCoinInteraction ''9'' ''i'' TREE (sampleDraw ''r'') sampleApp))
     = [''merged-r'']
   \<and> coinMap (coinState (handleCoinInteraction ''9'' ''i'' TREE (sampleDraw ''r'') sampleApp))
      ''9'' = None
   \<and> coinMap (coinState (handleCoinInteraction ''9'' ''i'' TREE (sampleDraw ''r'') sampleApp))
      ''i'' = None
   \<and> dom (coinMap (coinState
        (handleCoinInteraction ''9'' ''i'' TREE (sampleDraw ''r'') sampleApp))) = {''merged-r''}
   \<and> handleCoinInteraction ''9'' ''zz'' TREE (sampleDraw ''r'') sampleApp = sampleApp"
proof -
  have m: "coinMap (coinState sampleApp) ''9'' = Some seedCoin"
    "coinMap (coinState sampleApp) ''i'' = Some waterCoin"
    "coinMap (coinState sampleApp) ''zz'' = None"
    "coinOrder (coinState sampleApp) = [''9'', ''i'']"
    by (simp_all add: sampleApp_def initialApp_def)
  have p: "position seedCoin = (0, 1, 0)" "position waterCoin = (2, 1, 4)"
    by (simp_all add: seedCoin_def waterCoin_def)
  show ?thesis
    using combine_event_effect[of sampleApp "''9''" seedCoin "''i''" waterCoin TREE
        "sampleDraw ''r''"]
      combine_event_effect[of sampleApp "''9''" seedCoin "''zz''" waterCoin TREE
        "sampleDraw ''r''"]
      m p sample_dom
    by (auto simp: sampleDraw_def)
qed

theorem combine_fresh_id_counterexample:
  "coinMap (coinState crowdedApp) ''9'' = Some seedCoin
   \<and> coinMap (coinState crowdedApp) ''i'' = Some waterCoin
   \<and> coinMap (coinState crowdedApp) ''merged-i'' = Some oldTree
   \<and> coinMap (coinState (handleCoinInteraction ''9'' ''i'' TREE (sampleDraw ''i'') crowdedApp))
        ''merged-i''
       = Some \<lparr>coin_id = ''merged-i'', coin_type = TREE, position = (1, 1, 2),
               rotation = (0, 0, 0), hasSplit = None, isActive = None\<rparr>
   \<and> coinMap (coinState (handleCoinInteraction ''9'' ''i'' TREE (sampleDraw ''i'') crowdedApp))
        ''9'' = None
   \<and> coinMap (coinState (handleCoinInteraction ''9'' ''i'' TREE (sampleDraw ''i'') crowdedApp))
        ''i'' = None
   \<and> coinOrder (coinState (handleCoinInteraction ''9'' ''i'' TREE (sampleDraw ''i'') crowdedApp))
       = [''merged-i'', ''merged-i'']"
  by (simp add: crowdedApp_def handleCoinInteraction_def Let_def sampleDraw_def seedCoin_def
      waterCoin_def oldTree_def)

section \<open>Repeated events and colliding ids\<close>

text \<open>
  A coin of a new game is collected, the screen renders, and the sensor reports the same
  coin once more: its id is no longer in the registry, and score, cash and bonus are
  credited a second time.
\<close>

lemma handleCoinCollected_removes:
  "coinMap (coinState (handleCoinCollected i ty a)) i = None"
  by (simp add: handleCoinCollected_def Let_def)

theorem collect_duplicate_counterexample:
  "coinMap (coinState (collectAndRender ''start-z'' STANDARD newGame)) ''start-z'' = None
   \<and> score (gameState (collectAndRender ''start-z'' STANDARD newGame)) = 100
   \<and> cash (gameState (collectAndRender ''start-z'' STANDARD newGame)) = 110
   \<and> bonus (gameState (collectAndRender ''start-z'' STANDARD newGame)) = 4
   \<and> score (gameState (handleCoinCollected ''start-z'' STANDARD
              (collectAndRender ''start-z'' STANDARD newGame))) = 200
   \<and> cash (gameState (handleCoinCollected ''start-z'' STANDARD
              (collectAndRender ''start-z'' STANDARD newGame))) = 120
   \<and> bonus (gameState (handleCoinCollected ''start-z'' STANDARD
              (collectAndRender ''start-z'' STANDARD newGame))) = 8"
proof -
  have r: "coinMap (coinState (collectAndRender ''start-z'' STANDARD newGame)) ''start-z'' = None"
    by (simp add: collectAndRender_def render_def handleCoinCollected_removes)
  from collects_state[of 1 "''start-z''"]
  have s: "gameState (collectAndRender ''start-z'' STANDARD newGame)
             = INITIAL_STATE\<lparr>phase := PLAYING, score := 100, cash := 110, bonus := 4\<rparr>"
    "gameStateRef (collectAndRender ''start-z'' STANDARD newGame)
             = gameState (collectAndRender ''start-z'' STANDARD newGame)"
    by simp_all
  have sg: "scoreGain STANDARD (gameState (collectAndRender ''start-z'' STANDARD newGame)) = 100"
    by (rule scoreGain_plain) (simp_all add: s INITIAL_STATE_def)
  show ?thesis
    using r s sg
    by (simp add: handleCoinCollected_gameState INITIAL_STATE_def)
qed

text \<open>
  Two drops in a new game whose random strings are both \<open>i\<close> (\<open>Math.random()\<close> returning
  0.5 twice): after the second drop the id is listed twice.
\<close>

lemma newGame_registry: "registry_inv (coinState newGame)"
  unfolding newGame_def render_def using startGame_inv[OF sampleDraws_distinct] by simp

lemma newGame_keys: "k \<in> dom (coinMap (coinState newGame)) \<Longrightarrow> length k \<ge> 6"
  by (auto simp: newGame_def render_def startGame_def Let_def dom_mapWith)

theorem registry_inv_counterexample:
  "reachable sampleDimensions (handleCoinDrop sampleDimensions (sampleDraw ''i'') STANDARD newGame)
   \<and> registry_inv (coinState
        (handleCoinDrop sampleDimensions (sampleDraw ''i'') STANDARD newGame))
   \<and> \<not> registry_inv (coinState
        (handleCoinDrop sampleDimensions (sampleDraw ''i'') STANDARD
          (handleCoinDrop sampleDimensions (sampleDraw ''i'') STANDARD newGame)))"
proof (intro conjI)
  show "reachable sampleDimensions
          (handleCoinDrop sampleDimensions (sampleDraw ''i'') STANDARD newGame)"
    by (intro r_drop newGame_reachable) (simp add: newGame_state)
  have "''i'' \<notin> dom (coinMap (coinState newGame))"
    using newGame_keys[of "''i''"] by auto
  then show "registry_inv (coinState
        (handleCoinDrop sampleDimensions (sampleDraw ''i'') STANDARD newGame))"
    unfolding handleCoinDrop_def
    by (intro spawnCoin_inv newGame_registry) (simp add: sampleDraw_def)
  show "\<not> registry_inv (coinState
        (handleCoinDrop sampleDimensions (sampleDraw ''i'') STANDARD
          (handleCoinDrop sampleDimensions (sampleDraw ''i'') STANDARD newGame)))"
    by (simp add: handleCoinDrop_def spawnCoin_def Let_def registry_inv_def newGame_state
        INITIAL_STATE_def sampleDraw_def)
qed

end
